theory Spec2Isabelle
  imports Complex_Main "HOL-Library.AList" "HOL-Library.Sublist"
begin

section \<open>JavaScript values\<close>

text \<open>
  The routes of \<^verbatim>\<open>src/routes/invoiceRoutes.js\<close> work on request bodies, which are
  arbitrary JSON values, with the untyped operators of JavaScript. A value is one of the
  JSON shapes (or \<^verbatim>\<open>undefined\<close>, the value of a missing property). An object is an
  association list in which the first binding of a key is the one the object holds.

  Strings are lists of code units; the type \<^typ>\<open>char\<close> covers the code units below 256
  (so \<^verbatim>\<open>U+00E9\<close> is the one character \<open>CHR 0xE9\<close>).

  The Number type is a parameter \<open>'n\<close> of the development, together with the
  operations of the engine on it (\<open>number_ops\<close>): nothing is assumed about rounding, so
  what is proved for every \<open>N\<close> holds for IEEE-754 doubles.
\<close>

datatype 'n jsval =
    JUndefined
  | JNull
  | JBool bool
  | JNum 'n
  | JStr string
  | JArr "'n jsval list"
  | JObj "(string \<times> 'n jsval) list"

datatype js_error = TypeError

record 'n number_ops =
  n_add :: "'n \<Rightarrow> 'n \<Rightarrow> 'n"     \<comment> \<open>\<^verbatim>\<open>x + y\<close> on Numbers\<close>
  n_sub :: "'n \<Rightarrow> 'n \<Rightarrow> 'n"     \<comment> \<open>\<^verbatim>\<open>x - y\<close>\<close>
  n_mul :: "'n \<Rightarrow> 'n \<Rightarrow> 'n"     \<comment> \<open>\<^verbatim>\<open>x * y\<close>\<close>
  n_lit :: "rat \<Rightarrow> 'n"          \<comment> \<open>the Number a decimal literal of the source denotes\<close>
  n_nan :: "'n"                  \<comment> \<open>\<^verbatim>\<open>NaN\<close>\<close>
  n_falsy :: "'n \<Rightarrow> bool"       \<comment> \<open>ToBoolean gives false: \<^verbatim>\<open>+0\<close>, \<^verbatim>\<open>-0\<close>, \<^verbatim>\<open>NaN\<close>\<close>
  n_str :: "'n \<Rightarrow> string"       \<comment> \<open>\<^verbatim>\<open>Number::toString\<close>\<close>
  n_of_str :: "string \<Rightarrow> 'n"    \<comment> \<open>\<^verbatim>\<open>StringToNumber\<close>\<close>

definition bindE :: "'e + 'a \<Rightarrow> ('a \<Rightarrow> 'e + 'b) \<Rightarrow> 'e + 'b" where
  "bindE m f = (case m of Inl e \<Rightarrow> Inl e | Inr x \<Rightarrow> f x)"

text \<open>ToBoolean, and \<^verbatim>\<open>a || b\<close> (the right operand is a constant wherever the routes use it).\<close>

fun truthy :: "'n number_ops \<Rightarrow> 'n jsval \<Rightarrow> bool" where
  "truthy N JUndefined = False"
| "truthy N JNull = False"
| "truthy N (JBool b) = b"
| "truthy N (JNum x) = (\<not> n_falsy N x)"
| "truthy N (JStr s) = (s \<noteq> [])"
| "truthy N (JArr xs) = True"
| "truthy N (JObj kvs) = True"

definition js_or :: "'n number_ops \<Rightarrow> 'n jsval \<Rightarrow> 'n jsval \<Rightarrow> 'n jsval" where
  "js_or N a b = (if truthy N a then a else b)"

text \<open>
  Reading a property \<^verbatim>\<open>v.k\<close>, for the names the routes read (\<^verbatim>\<open>items\<close>,
  \<^verbatim>\<open>totalPrice\<close>, \<^verbatim>\<open>timbre\<close>, \<^verbatim>\<open>totalRemise\<close>): none of them is defined by a
  prototype, so only an object's own binding gives a value (\<open>field\<close>, with
  \<^verbatim>\<open>undefined\<close> for a missing one); \<^verbatim>\<open>undefined\<close> and \<^verbatim>\<open>null\<close> have no
  properties and the read raises.
\<close>

definition field :: "(string \<times> 'n jsval) list \<Rightarrow> string \<Rightarrow> 'n jsval" where
  "field kvs k = (case map_of kvs k of None \<Rightarrow> JUndefined | Some v \<Rightarrow> v)"

fun get_prop :: "'n jsval \<Rightarrow> string \<Rightarrow> js_error + 'n jsval" where
  "get_prop JUndefined k = Inl TypeError"
| "get_prop JNull k = Inl TypeError"
| "get_prop (JObj kvs) k = Inr (field kvs k)"
| "get_prop v k = Inr JUndefined"

text \<open>
  ToString. An array is joined with commas, \<^verbatim>\<open>undefined\<close> and \<^verbatim>\<open>null\<close> elements
  giving the empty string. A parsed JSON object converts with \<^verbatim>\<open>Object.prototype.toString\<close>,
  unless it has a binding \<^verbatim>\<open>toString\<close> of its own: that binding is not callable,
  no method yields a primitive and the conversion raises.
\<close>

fun join_strs :: "(js_error + string) list \<Rightarrow> js_error + string" where
  "join_strs [] = Inr []"
| "join_strs [x] = x"
| "join_strs (x # y # ys) =
     bindE x (\<lambda>s. bindE (join_strs (y # ys)) (\<lambda>t. Inr (s @ '','' @ t)))"

fun ToString :: "'n number_ops \<Rightarrow> 'n jsval \<Rightarrow> js_error + string" where
  "ToString N JUndefined = Inr ''undefined''"
| "ToString N JNull = Inr ''null''"
| "ToString N (JBool b) = Inr (if b then ''true'' else ''false'')"
| "ToString N (JNum x) = Inr (n_str N x)"
| "ToString N (JStr s) = Inr s"
| "ToString N (JArr xs) =
     join_strs (map (\<lambda>x. if x = JUndefined \<or> x = JNull then Inr [] else ToString N x) xs)"
| "ToString N (JObj kvs) =
     (if ''toString'' \<in> fst ` set kvs then Inl TypeError else Inr ''[object Object]'')"

fun ToPrimitive :: "'n number_ops \<Rightarrow> 'n jsval \<Rightarrow> js_error + 'n jsval" where
  "ToPrimitive N (JArr xs) = bindE (ToString N (JArr xs)) (\<lambda>s. Inr (JStr s))"
| "ToPrimitive N (JObj kvs) = bindE (ToString N (JObj kvs)) (\<lambda>s. Inr (JStr s))"
| "ToPrimitive N v = Inr v"

fun ToNumber :: "'n number_ops \<Rightarrow> 'n jsval \<Rightarrow> js_error + 'n" where
  "ToNumber N JUndefined = Inr (n_nan N)"
| "ToNumber N JNull = Inr (n_lit N 0)"
| "ToNumber N (JBool b) = Inr (n_lit N (if b then 1 else 0))"
| "ToNumber N (JNum x) = Inr x"
| "ToNumber N (JStr s) = Inr (n_of_str N s)"
| "ToNumber N v = bindE (ToString N v) (\<lambda>s. Inr (n_of_str N s))"

fun is_JStr :: "'n jsval \<Rightarrow> bool" where
  "is_JStr (JStr s) = True"
| "is_JStr v = False"

text \<open>The operators \<^verbatim>\<open>a + b\<close>, \<^verbatim>\<open>a * b\<close> and \<^verbatim>\<open>a - b\<close>.\<close>

definition js_add :: "'n number_ops \<Rightarrow> 'n jsval \<Rightarrow> 'n jsval \<Rightarrow> js_error + 'n jsval" where
  "js_add N a b =
     bindE (ToPrimitive N a) (\<lambda>pa.
     bindE (ToPrimitive N b) (\<lambda>pb.
       if is_JStr pa \<or> is_JStr pb
       then bindE (ToString N pa) (\<lambda>s. bindE (ToString N pb) (\<lambda>t. Inr (JStr (s @ t))))
       else bindE (ToNumber N pa) (\<lambda>x. bindE (ToNumber N pb) (\<lambda>y. Inr (JNum (n_add N x y))))))"

definition js_mul :: "'n number_ops \<Rightarrow> 'n jsval \<Rightarrow> 'n jsval \<Rightarrow> js_error + 'n jsval" where
  "js_mul N a b =
     bindE (ToNumber N a) (\<lambda>x. bindE (ToNumber N b) (\<lambda>y. Inr (JNum (n_mul N x y))))"

definition js_sub :: "'n number_ops \<Rightarrow> 'n jsval \<Rightarrow> 'n jsval \<Rightarrow> js_error + 'n jsval" where
  "js_sub N a b =
     bindE (ToNumber N a) (\<lambda>x. bindE (ToNumber N b) (\<lambda>y. Inr (JNum (n_sub N x y))))"

text \<open>\<^verbatim>\<open>xs.reduce(f, init)\<close>: a left fold, stopped by the first exception.\<close>

fun reduce :: "('a \<Rightarrow> 'b \<Rightarrow> js_error + 'a) \<Rightarrow> 'b list \<Rightarrow> 'a \<Rightarrow> js_error + 'a" where
  "reduce f [] acc = Inr acc"
| "reduce f (x # xs) acc = bindE (f acc x) (reduce f xs)"

section \<open>The monetary calculator\<close>

text \<open>
  \<^verbatim>\<open>calculateInvoiceTotals\<close> (lines 8 to 22). \<^verbatim>\<open>invoiceData.items.reduce\<close> raises a
  TypeError unless \<^verbatim>\<open>items\<close> is an array: no other JSON value has a callable
  \<^verbatim>\<open>reduce\<close>.
\<close>

record 'n totals =
  totalHT :: "'n jsval"
  totalTVA :: "'n jsval"
  timbre :: "'n jsval"
  totalRemise :: "'n jsval"
  totalTTC :: "'n jsval"

definition add_item :: "'n number_ops \<Rightarrow> 'n jsval \<Rightarrow> 'n jsval \<Rightarrow> js_error + 'n jsval" where
  \<comment> \<open>the callback \<^verbatim>\<open>(sum, item) => sum + (item.totalPrice || 0)\<close>\<close>
  "add_item N acc item =
     bindE (get_prop item ''totalPrice'') (\<lambda>p. js_add N acc (js_or N p (JNum (n_lit N 0))))"

definition items_reduce :: "'n number_ops \<Rightarrow> 'n jsval \<Rightarrow> js_error + 'n jsval" where
  "items_reduce N items =
     (case items of
        JArr xs \<Rightarrow> reduce (add_item N) xs (JNum (n_lit N 0))
      | _ \<Rightarrow> Inl TypeError)"

definition calculateInvoiceTotals :: "'n number_ops \<Rightarrow> 'n jsval \<Rightarrow> js_error + 'n totals" where
  "calculateInvoiceTotals N invoiceData =
     bindE (get_prop invoiceData ''items'') (\<lambda>items.
     bindE (items_reduce N items) (\<lambda>ht.
     bindE (js_mul N ht (JNum (n_lit N (19 / 100)))) (\<lambda>tva.
     bindE (get_prop invoiceData ''timbre'') (\<lambda>t.
     bindE (get_prop invoiceData ''totalRemise'') (\<lambda>r.
     bindE (js_add N ht tva) (\<lambda>s1.
     bindE (js_add N s1 (js_or N t (JNum (n_lit N (1 / 10))))) (\<lambda>s2.
     bindE (js_sub N s2 (js_or N r (JNum (n_lit N 0)))) (\<lambda>ttc.
       Inr \<lparr> totalHT = ht, totalTVA = tva,
             timbre = js_or N t (JNum (n_lit N (1 / 10))),
             totalRemise = js_or N r (JNum (n_lit N 0)),
             totalTTC = ttc \<rparr>))))))))"

text \<open>
  For stating what the calculator returns: the value read as the price of an item, the
  values that are amounts (a Number, or a value that \<^verbatim>\<open>||\<close> replaces by its default),
  and the Number an amount stands for, given the default.
\<close>

fun price :: "'n jsval \<Rightarrow> 'n jsval" where
  "price (JObj kvs) = field kvs ''totalPrice''"
| "price v = JUndefined"

fun is_amount :: "'n number_ops \<Rightarrow> 'n jsval \<Rightarrow> bool" where
  "is_amount N (JNum x) = True"
| "is_amount N v = (\<not> truthy N v)"

fun amount :: "'n number_ops \<Rightarrow> 'n \<Rightarrow> 'n jsval \<Rightarrow> 'n" where
  "amount N d (JNum x) = (if n_falsy N x then d else x)"
| "amount N d v = d"


section \<open>Decimal numerals and \<^verbatim>\<open>parseInt\<close>\<close>

text \<open>\<open>dec n\<close> is the decimal numeral of \<open>n\<close>.\<close>

definition digit_char :: "nat \<Rightarrow> char" where
  "digit_char d = char_of (48 + d)"

fun dec :: "nat \<Rightarrow> string" where
  "dec n = (if n < 10 then [digit_char n] else dec (n div 10) @ [digit_char (n mod 10)])"

declare dec.simps [simp del]

text \<open>The value of a character as a digit in some radix up to 36, as \<^verbatim>\<open>parseInt\<close> reads it.\<close>

definition digit_of :: "char \<Rightarrow> nat option" where
  "digit_of c =
     (let k = (of_char c :: nat) in
      if 48 \<le> k \<and> k \<le> 57 then Some (k - 48)
      else if 97 \<le> k \<and> k \<le> 122 then Some (k - 87)
      else if 65 \<le> k \<and> k \<le> 90 then Some (k - 55)
      else None)"

definition is_radix_digit :: "nat \<Rightarrow> char \<Rightarrow> bool" where
  "is_radix_digit R c = (case digit_of c of Some d \<Rightarrow> d < R | None \<Rightarrow> False)"

definition digits_value :: "nat \<Rightarrow> string \<Rightarrow> nat" where
  "digits_value R z = foldl (\<lambda>a c. a * R + the (digit_of c)) 0 z"

definition is_white_space :: "char \<Rightarrow> bool" where
  \<comment> \<open>WhiteSpace and LineTerminator code units below 256: TAB, LF, VT, FF, CR, SP, NBSP\<close>
  "is_white_space c = ((of_char c :: nat) \<in> {9, 10, 11, 12, 13, 32, 160})"

text \<open>
  The Numbers of the numbering path are integer-valued doubles, \<^verbatim>\<open>NaN\<close> and the two
  infinities (\<open>IInfinity True\<close> is the negative one). A finite one is given by its
  integer value.
\<close>

datatype int_number = INaN | IInfinity bool | IInt int

text \<open>The number of binary digits of \<open>n\<close>.\<close>

fun bit_length :: "nat \<Rightarrow> nat" where
  "bit_length n = (if n = 0 then 0 else Suc (bit_length (n div 2)))"

declare bit_length.simps [simp del]

text \<open>
  Rounding of a natural number to the nearest one with a significand of 53 binary
  digits, ties to the even significand, as IEEE 754 binary64 does: \<open>e\<close> is the number
  of binary digits that do not fit (0 when all fit, where nothing changes), \<open>q\<close>
  the significand and \<open>r\<close> what is cut off.
\<close>

definition round_double :: "nat \<Rightarrow> nat" where
  "round_double a =
     (let e = bit_length a - 53;
          q = a div 2 ^ e;
          r = a mod 2 ^ e
      in (if 2 ^ e < 2 * r \<or> (2 * r = 2 ^ e \<and> odd q) then q + 1 else q) * 2 ^ e)"

text \<open>
  The Number of a mathematical integer: rounded, and infinite when the rounded
  magnitude reaches \<open>2^1024\<close>, that is when it has more than 1024 binary digits.
\<close>

definition to_Number :: "int \<Rightarrow> int_number" where
  "to_Number i =
     (let d = round_double (nat \<bar>i\<bar>)
      in if 1024 < bit_length d then IInfinity (i < 0) else IInt (sgn i * int d))"

text \<open>\<^verbatim>\<open>n + 1\<close> on these Numbers: the exact sum, rounded.\<close>

definition plus_one :: "int_number \<Rightarrow> int_number" where
  "plus_one n = (case n of IInt i \<Rightarrow> to_Number (i + 1) | _ \<Rightarrow> n)"

text \<open>
  \<^verbatim>\<open>parseInt(s)\<close> with no radix argument: leading white space is skipped, one sign is
  read, a prefix \<^verbatim>\<open>0x\<close> or \<^verbatim>\<open>0X\<close> selects radix 16, and the longest run of digits
  is the numeral; text after it is ignored, and no digit at all gives \<^verbatim>\<open>NaN\<close>.
  The result is the Number of the numeral's value. (For a decimal numeral of more than
  20 significant digits the language lets an engine read the digits after the 20th as
  zeros; the model reads them all.)
\<close>

definition parseInt :: "string \<Rightarrow> int_number" where
  "parseInt s =
     (let s1 = dropWhile is_white_space s;
          neg = (take 1 s1 = ''-'');
          s2 = (if take 1 s1 = ''-'' \<or> take 1 s1 = ''+'' then drop 1 s1 else s1);
          hex = (take 2 s2 = ''0x'' \<or> take 2 s2 = ''0X'');
          R = (if hex then 16 else 10);
          s3 = (if hex then drop 2 s2 else s2);
          z = takeWhile (is_radix_digit R) s3
      in if z = [] then INaN
         else to_Number ((if neg then - 1 else 1) * int (digits_value R z)))"


text \<open>\<^verbatim>\<open>s.padStart(n, '0')\<close>.\<close>

definition padStart0 :: "nat \<Rightarrow> string \<Rightarrow> string" where
  "padStart0 n s = replicate (n - length s) (CHR ''0'') @ s"

section \<open>An interpretation of Number for running examples\<close>

text \<open>
  Exact arithmetic on rationals with a \<open>NaN\<close>: what doubles compute whenever no operation
  rounds, which is the case for the small decimal inputs of the examples below. The string
  conversions cover plain decimal notation (no exponent part, no \<^verbatim>\<open>Infinity\<close>).
\<close>

datatype exact = NaN | Fin rat

fun exact_bin :: "(rat \<Rightarrow> rat \<Rightarrow> rat) \<Rightarrow> exact \<Rightarrow> exact \<Rightarrow> exact" where
  "exact_bin f (Fin a) (Fin b) = Fin (f a b)"
| "exact_bin f x y = NaN"

fun exact_falsy :: "exact \<Rightarrow> bool" where
  "exact_falsy NaN = True"
| "exact_falsy (Fin r) = (r = 0)"

fun frac_digits :: "nat \<Rightarrow> rat \<Rightarrow> string" where
  "frac_digits 0 r = []"
| "frac_digits (Suc k) r =
     (if r = 0 then []
      else digit_char (nat \<lfloor>r * 10\<rfloor>) # frac_digits k (r * 10 - of_int \<lfloor>r * 10\<rfloor>))"

fun exact_str :: "exact \<Rightarrow> string" where
  "exact_str NaN = ''NaN''"
| "exact_str (Fin r) =
     (if r < 0 then ''-'' else []) @ dec (nat \<lfloor>\<bar>r\<bar>\<rfloor>) @
     (if \<bar>r\<bar> = of_int \<lfloor>\<bar>r\<bar>\<rfloor> then []
      else ''.'' @ frac_digits 20 (\<bar>r\<bar> - of_int \<lfloor>\<bar>r\<bar>\<rfloor>))"

definition exact_of_str :: "string \<Rightarrow> exact" where
  "exact_of_str s =
     (let t = rev (dropWhile is_white_space (rev (dropWhile is_white_space s)));
          neg = (take 1 t = ''-'');
          u = (if take 1 t = ''-'' \<or> take 1 t = ''+'' then drop 1 t else t);
          ip = takeWhile (is_radix_digit 10) u;
          rest = dropWhile (is_radix_digit 10) u;
          fp = (if take 1 rest = ''.'' then takeWhile (is_radix_digit 10) (drop 1 rest) else []);
          tail = (if take 1 rest = ''.'' then dropWhile (is_radix_digit 10) (drop 1 rest) else rest)
      in if t = [] then Fin 0
         else if tail \<noteq> [] \<or> (ip = [] \<and> fp = []) then NaN
         else Fin ((if neg then - 1 else 1) *
                   (of_nat (digits_value 10 ip) + of_nat (digits_value 10 fp) / 10 ^ length fp)))"

definition exact_ops :: "exact number_ops" where
  "exact_ops =
     \<lparr> n_add = exact_bin (+), n_sub = exact_bin (-), n_mul = exact_bin (*),
       n_lit = Fin, n_nan = NaN, n_falsy = exact_falsy,
       n_str = exact_str, n_of_str = exact_of_str \<rparr>"

section \<open>The invoice store\<close>

text \<open>
  Modelled from the spec: the persistence collaborator (\<^verbatim>\<open>models/Invoice.js\<close> and the
  store behind it, which are not part of the sources). Section 6 of the spec gives its
  interface: a key-based record store with \<^verbatim>\<open>findById\<close>,
  \<^verbatim>\<open>findLatestByCreatedDesc\<close>, \<^verbatim>\<open>insert\<close> and \<^verbatim>\<open>updateById(id, patch)\<close>. A record
  has a store-assigned identifier and creation time and the fields of the document; a
  patch replaces the fields it names.
\<close>

record 'n invoice =
  inv_id :: string
  createdAt :: nat
  doc :: "(string \<times> 'n jsval) list"

type_synonym 'n store = "'n invoice list"

definition findById :: "'n store \<Rightarrow> string \<Rightarrow> 'n invoice option" where
  \<comment> \<open>Modelled from the spec: \<^verbatim>\<open>findById(id)\<close>, the record or nothing\<close>
  "findById st i = find (\<lambda>x. inv_id x = i) st"

fun findLatest :: "'n store \<Rightarrow> 'n invoice option" where
  \<comment> \<open>Modelled from the spec: \<^verbatim>\<open>findLatestByCreatedDesc()\<close>, which the route calls as
      \<^verbatim>\<open>findOne().sort({ createdAt: -1 })\<close>: a record of greatest creation time\<close>
  "findLatest [] = None"
| "findLatest (x # xs) =
     (case findLatest xs of
        None \<Rightarrow> Some x
      | Some y \<Rightarrow> if createdAt x < createdAt y then Some y else Some x)"

definition insert_doc ::
  "'n store \<Rightarrow> string \<Rightarrow> nat \<Rightarrow> (string \<times> 'n jsval) list \<Rightarrow> 'n store \<times> 'n invoice" where
  \<comment> \<open>Modelled from the spec: \<^verbatim>\<open>insert(record)\<close>, which returns the saved record\<close>
  "insert_doc st new_id now d =
     (st @ [\<lparr> inv_id = new_id, createdAt = now, doc = d \<rparr>],
      \<lparr> inv_id = new_id, createdAt = now, doc = d \<rparr>)"

fun updateById ::
  "'n store \<Rightarrow> string \<Rightarrow> (string \<times> 'n jsval) list \<Rightarrow> ('n store \<times> 'n invoice) option" where
  \<comment> \<open>Modelled from the spec: \<^verbatim>\<open>updateById(id, patch)\<close>, which returns the updated record\<close>
  "updateById [] i patch = None"
| "updateById (x # xs) i patch =
     (if inv_id x = i
      then Some (x\<lparr> doc := AList.merge (doc x) patch \<rparr> # xs, x\<lparr> doc := AList.merge (doc x) patch \<rparr>)
      else map_option (\<lambda>(st', u). (x # st', u)) (updateById xs i patch))"

section \<open>Creation and update\<close>

text \<open>
  \<^verbatim>\<open>s.split(sep)\<close>: the pieces of \<open>s\<close> between the occurrences of \<open>sep\<close>, found from
  left to right without overlap; an empty separator splits into code units.
\<close>

function split_at :: "string \<Rightarrow> string \<Rightarrow> string \<Rightarrow> string list" where
  "split_at sep cur s =
     (if sep \<noteq> [] \<and> prefix sep s then cur # split_at sep [] (drop (length sep) s)
      else (case s of [] \<Rightarrow> [cur] | c # cs \<Rightarrow> split_at sep (cur @ [c]) cs))"
  by pat_completeness auto
termination
  by (relation "measure (\<lambda>(sep, cur, s). length s)") (auto simp: prefix_def)

declare split_at.simps [simp del]

definition js_split :: "string \<Rightarrow> string \<Rightarrow> string list" where
  "js_split sep s = (if sep = [] then map (\<lambda>c. [c]) s else split_at sep [] s)"

text \<open>
  \<^verbatim>\<open>n.toString()\<close> writes the shortest decimal digits that read back as the same
  Number, and zeros after them up to the units. \<open>shortest a j\<close> looks for them from
  the fewest digits on: with \<open>p = 10^j\<close>, the multiples of \<open>p\<close> next to \<open>a\<close> are tried,
  the one closer to \<open>a\<close> winning when both round to \<open>a\<close> (the even one at equal
  distance), and one more digit is taken when neither does. An integer of at most 53
  binary digits is the only integer that rounds to it, so its digits are its decimal
  numeral.
\<close>

fun shortest :: "nat \<Rightarrow> nat \<Rightarrow> nat" where
  "shortest a 0 = a"
| "shortest a (Suc j) =
     (let p = 10 ^ Suc j;
          lo = (a div p) * p;
          hi = lo + p;
          lo_ok = (round_double lo = a);
          hi_ok = (round_double hi = a)
      in if lo_ok \<and> hi_ok
         then (if a - lo < hi - a then lo
               else if hi - a < a - lo then hi
               else if even (a div p) then lo else hi)
         else if lo_ok then lo
         else if hi_ok then hi
         else shortest a j)"

definition strip_zeros :: "string \<Rightarrow> string" where
  "strip_zeros ds = rev (dropWhile (\<lambda>c. c = CHR ''0'') (rev ds))"

text \<open>
  The text of a magnitude \<open>a\<close> that is a double: its digits in full up to 21 of them,
  and from \<open>10^21\<close> on the first digit, the others after a point, and the exponent.
\<close>

definition digits_text :: "nat \<Rightarrow> string" where
  "digits_text a =
     (let v = (if bit_length a \<le> 53 then a else shortest a (length (dec a) - 1));
          ds = dec v
      in if length ds \<le> 21 then ds
         else (let m = strip_zeros ds
               in take 1 m @ (if length m = 1 then [] else ''.'' @ drop 1 m) @
                  ''e+'' @ dec (length ds - 1)))"

definition number_toString :: "int_number \<Rightarrow> string" where
  "number_toString n =
     (case n of
        INaN \<Rightarrow> ''NaN''
      | IInfinity neg \<Rightarrow> (if neg then ''-Infinity'' else ''Infinity'')
      | IInt i \<Rightarrow> (if i < 0 then ''-'' @ digits_text (nat (- i)) else digits_text (nat i)))"

text \<open>
  Lines 47 to 53 of the creation route. \<^verbatim>\<open>lastInvoice.invoiceNumber.split\<close> raises
  unless the stored number is a string; a missing second piece is \<^verbatim>\<open>undefined\<close>,
  which \<^verbatim>\<open>parseInt\<close> reads as the text \<^verbatim>\<open>undefined\<close>.
\<close>

definition lastNumber :: "string \<Rightarrow> int_number" where
  "lastNumber invoiceNumber =
     parseInt (case js_split ''BCC'' invoiceNumber of
                 p0 # p1 # ps \<Rightarrow> p1
               | _ \<Rightarrow> ''undefined'')"

definition format_number :: "int_number \<Rightarrow> string" where
  "format_number nextNumber = ''BCC'' @ padStart0 3 (number_toString nextNumber)"

definition next_invoice_number :: "'n store \<Rightarrow> js_error + string" where
  "next_invoice_number st =
     (case findLatest st of
        None \<Rightarrow> Inr (format_number (IInt 1))
      | Some lastInvoice \<Rightarrow>
          (case field (doc lastInvoice) ''invoiceNumber'' of
             JStr s \<Rightarrow> Inr (format_number (plus_one (lastNumber s)))
           | _ \<Rightarrow> Inl TypeError))"

text \<open>
  The own enumerable properties an object spread \<^verbatim>\<open>{...v}\<close> copies, and the fields of
  \<^verbatim>\<open>calculatedTotals\<close>. In an object literal a later binding of a key replaces an
  earlier one (\<open>AList.merge\<close>).
\<close>

fun spread :: "'n jsval \<Rightarrow> (string \<times> 'n jsval) list" where
  "spread (JObj kvs) = kvs"
| "spread (JArr xs) = zip (map dec [0..<length xs]) xs"
| "spread (JStr s) = zip (map dec [0..<length s]) (map (\<lambda>c. JStr [c]) s)"
| "spread v = []"

definition totals_fields :: "'n totals \<Rightarrow> (string \<times> 'n jsval) list" where
  "totals_fields t =
     [(''totalHT'', totalHT t), (''totalTVA'', totalTVA t), (''timbre'', timbre t),
      (''totalRemise'', totalRemise t), (''totalTTC'', totalTTC t)]"

datatype 'n reply =
    Replied nat "'n invoice"       \<comment> \<open>\<^verbatim>\<open>res.status(n).json(invoice)\<close>\<close>
  | NotFound string                \<comment> \<open>\<^verbatim>\<open>res.status(404).json({ message })\<close>\<close>
  | Raised js_error                \<comment> \<open>an exception, handed to \<^verbatim>\<open>next\<close> by \<^verbatim>\<open>handleAsyncErrors\<close>\<close>

text \<open>\<^verbatim>\<open>router.post('/')\<close>, lines 45 to 66; the store assigns \<open>new_id\<close> and \<open>now\<close>.\<close>

definition create_invoice ::
  "'n number_ops \<Rightarrow> 'n store \<Rightarrow> string \<Rightarrow> nat \<Rightarrow> 'n jsval \<Rightarrow> 'n store \<times> 'n reply" where
  "create_invoice N st new_id now body =
     (case next_invoice_number st of
        Inl e \<Rightarrow> (st, Raised e)
      | Inr invoiceNumber \<Rightarrow>
          (case calculateInvoiceTotals N body of
             Inl e \<Rightarrow> (st, Raised e)
           | Inr calculatedTotals \<Rightarrow>
               (case insert_doc st new_id now
                       (AList.merge
                          (AList.merge (spread body) [(''invoiceNumber'', JStr invoiceNumber)])
                          (totals_fields calculatedTotals)) of
                  (st', savedInvoice) \<Rightarrow> (st', Replied 201 savedInvoice))))"

text \<open>\<^verbatim>\<open>router.put('/:id')\<close>, lines 69 to 85, and \<^verbatim>\<open>router.get('/:id')\<close>, lines 36 to 42.\<close>

definition update_invoice ::
  "'n number_ops \<Rightarrow> 'n store \<Rightarrow> string \<Rightarrow> 'n jsval \<Rightarrow> 'n store \<times> 'n reply" where
  "update_invoice N st i body =
     (case calculateInvoiceTotals N body of
        Inl e \<Rightarrow> (st, Raised e)
      | Inr calculatedTotals \<Rightarrow>
          (case updateById st i (AList.merge (spread body) (totals_fields calculatedTotals)) of
             None \<Rightarrow> (st, NotFound ''Invoice not found'')
           | Some (st', invoice) \<Rightarrow> (st', Replied 200 invoice)))"

definition get_invoice :: "'n store \<Rightarrow> string \<Rightarrow> 'n reply" where
  "get_invoice st i =
     (case findById st i of
        None \<Rightarrow> NotFound ''Invoice not found''
      | Some invoice \<Rightarrow> Replied 200 invoice)"

section \<open>The document renderer\<close>

text \<open>
  \<^verbatim>\<open>generateInvoicePDF\<close> (lines 246 to 302) drives a rendering engine through awaited
  calls. What each call does is the engine's business: a scenario fixes, for every call
  the function can make, whether it resolves, rejects with a message or never settles.
  \<^verbatim>\<open>generateInvoiceHTML\<close> is synchronous, but it can raise like any other step. The
  function's result is paired with the calls it made on browser instances, in order; a
  call that never settles leaves the function without a result (\<open>None\<close>).
\<close>

datatype 'a step = Resolves 'a | Rejects string | Hangs

record scenario =
  executablePath :: "unit step"    \<comment> \<open>\<^verbatim>\<open>chromium.executablePath()\<close>, production only\<close>
  import_puppeteer :: "unit step"  \<comment> \<open>\<^verbatim>\<open>import("puppeteer")\<close>, development only\<close>
  launch :: "nat step"             \<comment> \<open>resolves with a new browser instance\<close>
  newPage :: "unit step"
  setViewport :: "unit step"
  generateInvoiceHTML :: "unit step"
  setContent :: "unit step"        \<comment> \<open>rejects when the content does not load in 30000 ms\<close>
  pdf :: "string step"
  close :: "unit step"

datatype engine_call =
    Launched nat | PageOpened nat | ViewportSet nat | ContentSet nat | PdfPrinted nat
  | Closed nat

text \<open>
  The calls of the \<^verbatim>\<open>try\<close> block after the launch, up to \<^verbatim>\<open>page.pdf\<close>: each
  is made only when the ones before it resolved. The result is the outcome of the block
  (\<open>Hangs\<close>, \<open>Rejects\<close> on the first exception, or the bytes of the document) and the
  calls made.
\<close>

fun run_steps :: "(engine_call option \<times> unit step) list \<Rightarrow> unit step \<times> engine_call list" where
  "run_steps [] = (Resolves (), [])"
| "run_steps ((c, s) # rest) =
     (case s of
        Resolves u \<Rightarrow> (case run_steps rest of (r, cs) \<Rightarrow> (r, (case c of None \<Rightarrow> [] | Some e \<Rightarrow> [e]) @ cs))
      | Rejects m \<Rightarrow> (Rejects m, case c of None \<Rightarrow> [] | Some e \<Rightarrow> [e])
      | Hangs \<Rightarrow> (Hangs, case c of None \<Rightarrow> [] | Some e \<Rightarrow> [e]))"

definition render_page :: "scenario \<Rightarrow> nat \<Rightarrow> string step \<times> engine_call list" where
  "render_page E browser =
     (case run_steps
             [(Some (PageOpened browser), newPage E),
              (Some (ViewportSet browser), setViewport E),
              (None, generateInvoiceHTML E),
              (Some (ContentSet browser), setContent E)] of
        (Resolves u, cs) \<Rightarrow> (pdf E, cs @ [PdfPrinted browser])
      | (Rejects m, cs) \<Rightarrow> (Rejects m, cs)
      | (Hangs, cs) \<Rightarrow> (Hangs, cs))"

definition wrap_error :: "string \<Rightarrow> string" where
  \<comment> \<open>the message of the error the \<^verbatim>\<open>catch\<close> block raises\<close>
  "wrap_error m =
     ''Erreur lors de la g'' @ [CHR 0xE9] @ ''n'' @ [CHR 0xE9] @ ''ration du PDF: '' @ m"

text \<open>
  The whole function: \<open>Inl\<close> is the message of the error it rejects with, \<open>Inr\<close> the
  document. The \<^verbatim>\<open>finally\<close> block closes the browser if one was launched; an error of
  \<^verbatim>\<open>browser.close()\<close> replaces the result.
\<close>

definition finally_close ::
  "scenario \<Rightarrow> nat \<Rightarrow> string + string \<Rightarrow> engine_call list \<Rightarrow> ((string + string) \<times> engine_call list) option" where
  "finally_close E browser result cs =
     (case close E of
        Resolves u \<Rightarrow> Some (result, cs @ [Closed browser])
      | Rejects m \<Rightarrow> Some (Inl m, cs @ [Closed browser])
      | Hangs \<Rightarrow> None)"

definition generateInvoicePDF ::
  "bool \<Rightarrow> scenario \<Rightarrow> ((string + string) \<times> engine_call list) option" where
  "generateInvoicePDF isProduction E =
     (case (if isProduction then executablePath E else import_puppeteer E) of
        Hangs \<Rightarrow> None
      | Rejects m \<Rightarrow> Some (Inl (wrap_error m), [])
      | Resolves u \<Rightarrow>
          (case launch E of
             Hangs \<Rightarrow> None
           | Rejects m \<Rightarrow> Some (Inl (wrap_error m), [])
           | Resolves browser \<Rightarrow>
               (case render_page E browser of
                  (Hangs, cs) \<Rightarrow> None
                | (Rejects m, cs) \<Rightarrow>
                    finally_close E browser (Inl (wrap_error m)) (Launched browser # cs)
                | (Resolves bytes, cs) \<Rightarrow>
                    finally_close E browser (Inr bytes) (Launched browser # cs))))"

text \<open>A scenario in which every call settles.\<close>

definition settles :: "'a step \<Rightarrow> bool" where
  "settles s = (s \<noteq> Hangs)"

definition all_settle :: "scenario \<Rightarrow> bool" where
  "all_settle E =
     (settles (executablePath E) \<and> settles (import_puppeteer E) \<and> settles (launch E) \<and>
      settles (newPage E) \<and> settles (setViewport E) \<and> settles (generateInvoiceHTML E) \<and>
      settles (setContent E) \<and> settles (pdf E) \<and> settles (close E))"

fun on_browser :: "nat \<Rightarrow> engine_call \<Rightarrow> bool" where
  \<comment> \<open>a call on a page of browser \<open>b\<close>\<close>
  "on_browser b (PageOpened c) = (c = b)"
| "on_browser b (ViewportSet c) = (c = b)"
| "on_browser b (ContentSet c) = (c = b)"
| "on_browser b (PdfPrinted c) = (c = b)"
| "on_browser b call = False"

section \<open>The delivery controller\<close>

text \<open>\<^verbatim>\<open>s.includes(sub)\<close>.\<close>

fun str_includes :: "string \<Rightarrow> string \<Rightarrow> bool" where
  "str_includes [] sub = (sub = [])"
| "str_includes (c # cs) sub = (prefix sub (c # cs) \<or> str_includes cs sub)"

text \<open>The identifier check of line 101: the whole text is 24 hexadecimal digits.\<close>

definition is_hex_digit :: "char \<Rightarrow> bool" where
  "is_hex_digit c = (c \<in> set ''0123456789abcdefABCDEF'')"

definition valid_id :: "string \<Rightarrow> bool" where
  "valid_id s = (length s = 24 \<and> list_all is_hex_digit s)"

text \<open>
  The race of lines 126 to 136. A promise settles at some time (in milliseconds after
  the timer was armed) or never; the timer rejects at \<open>timeoutMs\<close>. \<^verbatim>\<open>Promise.race\<close>
  settles as the promise that settles first does. The timer is armed on line 127, before
  the render is started on line 134, so a render wins only by settling before the timer
  fires: one that settles at \<open>timeoutMs\<close> or later finds the race settled.
\<close>

datatype 'a settle = Never | Settles nat 'a

definition timeoutMs :: nat where
  "timeoutMs = 120000"

definition timeout_message :: string where
  "timeout_message =
     ''PDF generation timeout - Le serveur met trop de temps '' @ [CHR 0xE0] @ '' g'' @
     [CHR 0xE9] @ ''n'' @ [CHR 0xE9] @ ''rer le PDF''"

definition promise_race :: "(string + string) settle \<Rightarrow> string + string" where
  "promise_race render =
     (case render of
        Never \<Rightarrow> Inl timeout_message
      | Settles t r \<Rightarrow> if t < timeoutMs then r else Inl timeout_message)"

text \<open>
  The verification of lines 142 to 161 on the bytes of the buffer: \<open>Inl\<close> is the message of
  the error raised, \<open>Inr\<close> the warnings written. Decoding bytes as text keeps every ASCII
  byte and gives no ASCII character for any other, so the comparisons with
  \<^verbatim>\<open>%PDF\<close> and \<^verbatim>\<open>%%EOF\<close> are comparisons of bytes.
\<close>

definition msg_empty :: string where
  "msg_empty = ''Le PDF g'' @ [CHR 0xE9] @ ''n'' @ [CHR 0xE9] @ ''r'' @ [CHR 0xE9] @ '' est vide''"

definition msg_too_small :: string where
  "msg_too_small =
     ''Le PDF g'' @ [CHR 0xE9] @ ''n'' @ [CHR 0xE9] @ ''r'' @ [CHR 0xE9] @
     '' semble corrompu (trop petit)''"

definition msg_not_pdf :: string where
  "msg_not_pdf =
     ''Le fichier g'' @ [CHR 0xE9] @ ''n'' @ [CHR 0xE9] @ ''r'' @ [CHR 0xE9] @
     '' n'est pas un PDF valide''"

definition warn_no_eof :: string where
  "warn_no_eof = ''[PDF] PDF may be incomplete - missing EOF marker''"

definition verify_pdf :: "string \<Rightarrow> string + string list" where
  "verify_pdf pdfBuffer =
     (if length pdfBuffer = 0 then Inl msg_empty
      else if length pdfBuffer < 1000 then Inl msg_too_small
      else if take 4 pdfBuffer \<noteq> ''%PDF'' then Inl msg_not_pdf
      else if \<not> str_includes (drop (length pdfBuffer - 6) pdfBuffer) ''%%EOF'' then Inr [warn_no_eof]
      else Inr [])"

text \<open>The classification of the \<^verbatim>\<open>catch\<close> block, lines 186 to 210.\<close>

record failure_class =
  statusCode :: nat
  errorMessage :: string
  errorCode :: string

definition msg_generic :: string where
  "msg_generic = ''Erreur lors de la g'' @ [CHR 0xE9] @ ''n'' @ [CHR 0xE9] @ ''ration du PDF''"

definition msg_504 :: string where
  "msg_504 =
     ''La g'' @ [CHR 0xE9] @ ''n'' @ [CHR 0xE9] @ ''ration du PDF prend trop de temps. Veuillez r'' @
     [CHR 0xE9] @ ''essayer.''"

definition msg_507 :: string where
  "msg_507 =
     ''M'' @ [CHR 0xE9] @ ''moire insuffisante pour g'' @ [CHR 0xE9] @ ''n'' @ [CHR 0xE9] @
     ''rer le PDF. Veuillez r'' @ [CHR 0xE9] @ ''essayer plus tard.''"

definition msg_503 :: string where
  "msg_503 =
     ''Service de g'' @ [CHR 0xE9] @ ''n'' @ [CHR 0xE9] @ ''ration PDF temporairement indisponible.''"

definition classify :: "string \<Rightarrow> failure_class" where
  "classify m =
     (if str_includes m ''timeout''
      then \<lparr> statusCode = 504, errorMessage = msg_504, errorCode = ''PDF_TIMEOUT'' \<rparr>
      else if str_includes m ''memory'' \<or> str_includes m ''Memory''
      then \<lparr> statusCode = 507, errorMessage = msg_507, errorCode = ''INSUFFICIENT_MEMORY'' \<rparr>
      else if str_includes m ''browser'' \<or> str_includes m ''puppeteer''
      then \<lparr> statusCode = 503, errorMessage = msg_503, errorCode = ''PDF_SERVICE_UNAVAILABLE'' \<rparr>
      else if str_includes m ''not found''
      then \<lparr> statusCode = 404, errorMessage = ''Facture introuvable'', errorCode = ''INVOICE_NOT_FOUND'' \<rparr>
      else if str_includes m ''vide'' \<or> str_includes m ''corrompu''
      then \<lparr> statusCode = 422, errorMessage = m, errorCode = ''PDF_VALIDATION_ERROR'' \<rparr>
      else \<lparr> statusCode = 500, errorMessage = msg_generic, errorCode = ''PDF_GENERATION_ERROR'' \<rparr>)"

text \<open>
  The classification as the spec words it: a table of classes, each with the texts that
  select it, searched in order, the first class with a text that occurs in the error text
  winning; no match gives the default class.
\<close>

definition spec_classes :: "(string list \<times> nat \<times> string) list" where
  "spec_classes =
     [([''timeout''], 504, ''PDF_TIMEOUT''),
      ([''memory'', ''Memory''], 507, ''INSUFFICIENT_MEMORY''),
      ([''browser'', ''puppeteer''], 503, ''PDF_SERVICE_UNAVAILABLE''),
      ([''not found''], 404, ''INVOICE_NOT_FOUND''),
      ([''vide'', ''corrompu''], 422, ''PDF_VALIDATION_ERROR'')]"

fun spec_first_match :: "(string list \<times> nat \<times> string) list \<Rightarrow> string \<Rightarrow> nat \<times> string" where
  "spec_first_match [] m = (500, ''PDF_GENERATION_ERROR'')"
| "spec_first_match ((keys, cls) # rest) m =
     (if list_ex (str_includes m) keys then cls else spec_first_match rest m)"

definition spec_message :: "nat \<Rightarrow> string" where
  \<comment> \<open>the fixed message of a class other than 422\<close>
  "spec_message n =
     (if n = 504 then msg_504 else if n = 507 then msg_507 else if n = 503 then msg_503
      else if n = 404 then ''Facture introuvable'' else msg_generic)"

text \<open>
  The responses of the route. \<open>NODE_ENV\<close> is the configuration variable, \<open>now_iso\<close> the
  time stamp (\<^verbatim>\<open>new Date().toISOString()\<close>), \<open>stack_of\<close> the stack trace the engine
  attaches to an error and \<open>numbers\<close> the engine's Numbers. Of the headers of a delivered
  document only what can make writing them fail is kept, and what the route writes to
  the console is left out, but for the warning of line 160.
\<close>

record 'n pdf_env =
  NODE_ENV :: "string option"
  now_iso :: string
  stack_of :: "string \<Rightarrow> string"
  numbers :: "'n number_ops"

record 'n error_body =
  b_message :: string
  b_code :: string
  b_invoiceNumber :: "'n jsval"
  b_timestamp :: string
  b_debug :: "(string \<times> string) option"   \<comment> \<open>\<^verbatim>\<open>originalError\<close> and \<^verbatim>\<open>stack\<close>\<close>

datatype 'n pdf_response =
    Refused nat string string        \<comment> \<open>status, message and code of lines 102 and 112\<close>
  | Failed nat "'n error_body"       \<comment> \<open>line 222\<close>
  | Delivered string                 \<comment> \<open>\<^verbatim>\<open>res.send(pdfBuffer)\<close>\<close>

fun response_status :: "'n pdf_response \<Rightarrow> nat" where
  "response_status (Refused n m c) = n"
| "response_status (Failed n b) = n"
| "response_status (Delivered bytes) = 200"

fun response_code :: "'n pdf_response \<Rightarrow> string option" where
  "response_code (Refused n m c) = Some c"
| "response_code (Failed n b) = Some (b_code b)"
| "response_code (Delivered bytes) = None"

record 'n pdf_outcome =
  response :: "'n pdf_response"
  store_reads :: "string list"     \<comment> \<open>the identifiers looked up in the store\<close>
  warnings :: "string list"        \<comment> \<open>what \<^verbatim>\<open>console.warn\<close> wrote\<close>

definition catch_error :: "'n pdf_env \<Rightarrow> 'n invoice \<Rightarrow> string \<Rightarrow> 'n pdf_response" where
  "catch_error env invoice m =
     Failed (statusCode (classify m))
       \<lparr> b_message = errorMessage (classify m),
         b_code = errorCode (classify m),
         b_invoiceNumber = field (doc invoice) ''invoiceNumber'',
         b_timestamp = now_iso env,
         b_debug = (if NODE_ENV env = Some ''development'' then Some (m, stack_of env m) else None) \<rparr>"

text \<open>
  \<^verbatim>\<open>encodeURIComponent(s)\<close>: letters, digits and the marks \<^verbatim>\<open>-_.!~*'()\<close> stay, and
  every other code unit is written as the bytes of its UTF-8 encoding, each as \<^verbatim>\<open>%\<close>
  and two hexadecimal digits.
\<close>

definition uri_unreserved :: "char \<Rightarrow> bool" where
  "uri_unreserved c =
     (c \<in> set (''ABCDEFGHIJKLMNOPQRSTUVWXYZabcdefghijklmnopqrstuvwxyz0123456789-_.!~*()'' @
               [CHR 0x27]))"

definition percent_byte :: "nat \<Rightarrow> string" where
  "percent_byte b = [CHR ''%'', ''0123456789ABCDEF'' ! (b div 16), ''0123456789ABCDEF'' ! (b mod 16)]"

definition encodeURIComponent :: "string \<Rightarrow> string" where
  "encodeURIComponent s =
     concat (map (\<lambda>c. let k = (of_char c :: nat)
                      in if uri_unreserved c then [c]
                         else if k < 128 then percent_byte k
                         else percent_byte (192 + k div 64) @ percent_byte (128 + k mod 64)) s)"

text \<open>
  Lines 164 to 177, the headers. \<^verbatim>\<open>res.setHeader\<close> raises for a value that holds a
  character other than TAB, \<^verbatim>\<open>0x20\<close> to \<^verbatim>\<open>0x7E\<close> and \<^verbatim>\<open>0x80\<close> to \<^verbatim>\<open>0xFF\<close>. The
  one header whose value is not fixed text or the text of a Number is
  \<^verbatim>\<open>Content-Disposition\<close>, which holds the file name, made of the invoice number and
  of the date, and the encoded file name. \<open>send_headers\<close> is the message of the error
  raised, if any: by the conversion of the invoice number to text, or by
  \<^verbatim>\<open>setHeader\<close>.
\<close>

definition header_char :: "char \<Rightarrow> bool" where
  "header_char c =
     (let k = (of_char c :: nat) in k = 9 \<or> (32 \<le> k \<and> k \<le> 126) \<or> 128 \<le> k)"

definition msg_not_primitive :: string where
  "msg_not_primitive = ''Cannot convert object to primitive value''"

definition msg_invalid_header :: string where
  "msg_invalid_header =
     ''Invalid character in header content ['' @ [CHR 0x22] @ ''Content-Disposition'' @
     [CHR 0x22] @ '']''"

definition content_disposition :: "string \<Rightarrow> string \<Rightarrow> string" where
  "content_disposition invoiceNumber today =
     (let filename =
            ''Facture_'' @ invoiceNumber @ ''_'' @
            (case js_split ''T'' today of d # ds \<Rightarrow> d | [] \<Rightarrow> ''undefined'') @ ''.pdf''
      in ''attachment; filename='' @ [CHR 0x22] @ filename @ [CHR 0x22] @
         ''; filename*=UTF-8'' @ [CHR 0x27, CHR 0x27] @ encodeURIComponent filename)"

definition send_headers :: "'n pdf_env \<Rightarrow> 'n invoice \<Rightarrow> string option" where
  "send_headers env invoice =
     (case ToString (numbers env) (field (doc invoice) ''invoiceNumber'') of
        Inl e \<Rightarrow> Some msg_not_primitive
      | Inr invoiceNumber \<Rightarrow>
          if list_all header_char (content_disposition invoiceNumber (now_iso env)) then None
          else Some msg_invalid_header)"

text \<open>
  The \<^verbatim>\<open>try\<close> block once the race has settled with \<open>r\<close>, and the whole block: the
  response and the warnings. The document is sent (line 180) once the headers are
  written; an error raised by the race, by the verification or by the headers is caught.
\<close>

definition after_race ::
  "'n pdf_env \<Rightarrow> 'n invoice \<Rightarrow> string + string \<Rightarrow> 'n pdf_response \<times> string list" where
  "after_race env invoice r =
     (case r of
        Inl m \<Rightarrow> (catch_error env invoice m, [])
      | Inr pdfBuffer \<Rightarrow>
          (case verify_pdf pdfBuffer of
             Inl m \<Rightarrow> (catch_error env invoice m, [])
           | Inr ws \<Rightarrow>
               (case send_headers env invoice of
                  Some m \<Rightarrow> (catch_error env invoice m, ws)
                | None \<Rightarrow> (Delivered pdfBuffer, ws))))"

definition try_deliver ::
  "'n pdf_env \<Rightarrow> 'n invoice \<Rightarrow> (string + string) settle \<Rightarrow> 'n pdf_response \<times> string list" where
  "try_deliver env invoice render = after_race env invoice (promise_race render)"

definition pdf_route ::
  "'n pdf_env \<Rightarrow> 'n store \<Rightarrow> string \<Rightarrow> (string + string) settle \<Rightarrow> 'n pdf_outcome" where
  "pdf_route env st ident render =
     (if \<not> valid_id ident
      then \<lparr> response = Refused 400 ''Format d'ID de facture invalide'' ''INVALID_ID_FORMAT'',
             store_reads = [], warnings = [] \<rparr>
      else
        (case findById st ident of
           None \<Rightarrow>
             \<lparr> response = Refused 404 ''Facture introuvable'' ''INVOICE_NOT_FOUND'',
               store_reads = [ident], warnings = [] \<rparr>
         | Some invoice \<Rightarrow>
             \<lparr> response = fst (try_deliver env invoice render),
               store_reads = [ident],
               warnings = snd (try_deliver env invoice render) \<rparr>))"

section \<open>Properties of the operators\<close>

lemma bindE_simps [simp]: "bindE (Inr x) f = f x" "bindE (Inl e) f = Inl e"
  by (simp_all add: bindE_def)

lemma bindE_eq_Inr: "bindE m f = Inr y \<longleftrightarrow> (\<exists>x. m = Inr x \<and> f x = Inr y)"
  by (cases m) simp_all

lemma js_add_nums: "js_add N (JNum a) (JNum b) = Inr (JNum (n_add N a b))"
  by (simp add: js_add_def)

lemma js_mul_nums: "js_mul N (JNum a) (JNum b) = Inr (JNum (n_mul N a b))"
  by (simp add: js_mul_def)

lemma js_sub_nums: "js_sub N (JNum a) (JNum b) = Inr (JNum (n_sub N a b))"
  by (simp add: js_sub_def)

lemma js_or_amount: "is_amount N v \<Longrightarrow> js_or N v (JNum d) = JNum (amount N d v)"
  by (cases v) (simp_all add: js_or_def)

lemma get_prop_price:
  "item \<noteq> JNull \<Longrightarrow> item \<noteq> JUndefined \<Longrightarrow> get_prop item ''totalPrice'' = Inr (price item)"
  by (cases item) simp_all

section \<open>Properties of the calculator\<close>

lemma add_item_amount:
  "item \<noteq> JNull \<Longrightarrow> item \<noteq> JUndefined \<Longrightarrow> is_amount N (price item) \<Longrightarrow>
   add_item N (JNum a) item = Inr (JNum (n_add N a (amount N (n_lit N 0) (price item))))"
  by (simp add: add_item_def get_prop_price js_or_amount js_add_nums)

lemma reduce_amounts:
  "\<forall>item\<in>set items. item \<noteq> JNull \<and> item \<noteq> JUndefined \<and> is_amount N (price item) \<Longrightarrow>
   reduce (add_item N) items (JNum a) =
     Inr (JNum (foldl (\<lambda>s item. n_add N s (amount N (n_lit N 0) (price item))) a items))"
  by (induction items arbitrary: a) (simp_all add: add_item_amount)

lemma calc_returns_object:
  assumes "calculateInvoiceTotals N body = Inr r"
  shows "\<exists>kvs. body = JObj kvs"
  using assms unfolding calculateInvoiceTotals_def items_reduce_def
  by (cases body) (auto simp: bindE_eq_Inr)

lemma calc_returns_timbre:
  assumes "calculateInvoiceTotals N body = Inr r"
  shows "\<exists>t. get_prop body ''timbre'' = Inr t \<and> timbre r = js_or N t (JNum (n_lit N (1 / 10)))"
  using assms unfolding calculateInvoiceTotals_def
  by (auto simp: bindE_eq_Inr)

text \<open>
  C1, as amended. For every request body whose \<^verbatim>\<open>items\<close> is an array without
  \<^verbatim>\<open>null\<close> entries, in which every \<^verbatim>\<open>totalPrice\<close> is a Number or a falsy value
  (missing, \<^verbatim>\<open>null\<close>, \<^verbatim>\<open>false\<close>, the empty string), and whose \<^verbatim>\<open>timbre\<close> and
  \<^verbatim>\<open>totalRemise\<close> are Numbers or falsy values, \<^verbatim>\<open>calculateInvoiceTotals\<close> returns
  (it does not raise), and whatever the arithmetic of Numbers is: \<^verbatim>\<open>totalHT\<close> is the
  sum, from left to right and starting from 0, of the items' prices, a missing or falsy
  price counting as 0; \<^verbatim>\<open>totalTVA\<close> is \<^verbatim>\<open>totalHT * 0.19\<close>; \<^verbatim>\<open>timbre\<close> is the
  supplied one, or 0.1 when missing or falsy; \<^verbatim>\<open>totalRemise\<close> is the supplied one, or 0;
  and \<^verbatim>\<open>totalTTC\<close> is \<^verbatim>\<open>totalHT + totalTVA + timbre - totalRemise\<close>.
\<close>

theorem calculateInvoiceTotals_amounts:
  assumes "field body ''items'' = JArr items"
    and "\<forall>item\<in>set items. item \<noteq> JNull \<and> item \<noteq> JUndefined \<and> is_amount N (price item)"
    and "is_amount N (field body ''timbre'')"
    and "is_amount N (field body ''totalRemise'')"
  shows "calculateInvoiceTotals N (JObj body) =
     (let ht = foldl (\<lambda>s item. n_add N s (amount N (n_lit N 0) (price item))) (n_lit N 0) items;
          tva = n_mul N ht (n_lit N (19 / 100));
          tb = amount N (n_lit N (1 / 10)) (field body ''timbre'');
          rm = amount N (n_lit N 0) (field body ''totalRemise'')
      in Inr \<lparr> totalHT = JNum ht, totalTVA = JNum tva, timbre = JNum tb, totalRemise = JNum rm,
               totalTTC = JNum (n_sub N (n_add N (n_add N ht tva) tb) rm) \<rparr>)"
  using assms
  by (simp add: calculateInvoiceTotals_def items_reduce_def reduce_amounts
      js_or_amount js_add_nums js_mul_nums js_sub_nums Let_def)

text \<open>
  The theorem at a body with one priced item, one item without a price and a discount:
  100 + 19 + 0.1 - 5.
\<close>

theorem calculateInvoiceTotals_amounts_witness:
  "calculateInvoiceTotals exact_ops
     (JObj [(''items'', JArr [JObj [(''totalPrice'', JNum (Fin 100))], JObj []]),
            (''totalRemise'', JNum (Fin 5))]) =
   Inr \<lparr> totalHT = JNum (Fin 100), totalTVA = JNum (Fin 19), timbre = JNum (Fin (1 / 10)),
         totalRemise = JNum (Fin 5), totalTTC = JNum (Fin (1141 / 10)) \<rparr>"
  using calculateInvoiceTotals_amounts
    [of "[(''items'', JArr [JObj [(''totalPrice'', JNum (Fin 100))], JObj []]),
          (''totalRemise'', JNum (Fin 5))]"
        "[JObj [(''totalPrice'', JNum (Fin 100))], JObj []]" exact_ops]
  by (simp add: field_def exact_ops_def)

text \<open>
  C1 as stated fails: a price that is not a Number and is truthy does not count as 0. For
  the body \<^verbatim>\<open>{"items": [{"totalPrice": "abc"}]}\<close> the sum \<^verbatim>\<open>0 + "abc"\<close> is the text
  \<^verbatim>\<open>0abc\<close>, and that is the \<^verbatim>\<open>totalHT\<close> returned.
\<close>

theorem non_numeric_price_counterexample:
  "map_sum id totalHT
     (calculateInvoiceTotals exact_ops
        (JObj [(''items'', JArr [JObj [(''totalPrice'', JStr ''abc'')]])])) = Inr (JStr ''0abc'')"
  by code_simp

section \<open>Properties of the store and of the update route\<close>

lemma field_merge_totals:
  "field (AList.merge kvs (totals_fields t)) ''totalHT'' = totalHT t"
  "field (AList.merge kvs (totals_fields t)) ''totalTVA'' = totalTVA t"
  "field (AList.merge kvs (totals_fields t)) ''timbre'' = timbre t"
  "field (AList.merge kvs (totals_fields t)) ''totalRemise'' = totalRemise t"
  "field (AList.merge kvs (totals_fields t)) ''totalTTC'' = totalTTC t"
  by (simp_all only: field_def merge_conv') (simp_all add: totals_fields_def)

lemma field_merge_other:
  "map_of patch k = None \<Longrightarrow> field (AList.merge kvs patch) k = field kvs k"
  by (simp add: field_def merge_conv' map_add_def)

lemma map_of_totals_invoiceNumber: "map_of (totals_fields t) ''invoiceNumber'' = None"
  by (simp add: totals_fields_def)

lemma updateById_Some:
  "findById st i = Some old \<Longrightarrow>
   \<exists>st'. updateById st i patch = Some (st', old\<lparr> doc := AList.merge (doc old) patch \<rparr>) \<and>
         findById st' i = Some (old\<lparr> doc := AList.merge (doc old) patch \<rparr>)"
proof (induction st)
  case Nil
  then show ?case by (simp add: findById_def)
next
  case (Cons x xs)
  show ?case
  proof (cases "inv_id x = i")
    case True
    with Cons.prems show ?thesis by (simp add: findById_def)
  next
    case False
    with Cons.prems have "findById xs i = Some old" by (simp add: findById_def)
    from Cons.IH [OF this] obtain st' where
      "updateById xs i patch = Some (st', old\<lparr> doc := AList.merge (doc old) patch \<rparr>)"
      "findById st' i = Some (old\<lparr> doc := AList.merge (doc old) patch \<rparr>)" by blast
    with False show ?thesis by (simp add: findById_def)
  qed
qed

lemma updateById_result:
  "updateById st i patch = Some (st', u) \<Longrightarrow>
   \<exists>old. findById st i = Some old \<and> u = old\<lparr> doc := AList.merge (doc old) patch \<rparr>"
proof (induction st arbitrary: st')
  case Nil
  then show ?case by simp
next
  case (Cons x xs)
  show ?case
  proof (cases "inv_id x = i")
    case True
    with Cons.prems show ?thesis by (auto simp: findById_def)
  next
    case False
    with Cons.prems obtain st'' where "updateById xs i patch = Some (st'', u)" by auto
    from Cons.IH [OF this] False show ?thesis by (simp add: findById_def)
  qed
qed

lemma field_patch_totals:
  "map_of (totals_fields t) k = Some v \<Longrightarrow>
   field (AList.merge d (AList.merge sp (totals_fields t))) k = v"
  by (simp only: field_def merge_conv' map_add_def) simp

text \<open>
  C3, as amended. For every existing invoice and every request body on which
  \<^verbatim>\<open>calculateInvoiceTotals\<close> returns, the update answers 200 with the updated record, a
  fetch after it returns that record, its five totals are the ones
  \<^verbatim>\<open>calculateInvoiceTotals\<close> computed from the body, and its \<^verbatim>\<open>invoiceNumber\<close> is the
  one before the update whenever the body has no \<^verbatim>\<open>invoiceNumber\<close> field of its own.
\<close>

theorem update_recomputes_totals:
  assumes "findById st i = Some old"
    and "calculateInvoiceTotals N body = Inr t"
  shows "\<exists>st' new.
      update_invoice N st i body = (st', Replied 200 new) \<and>
      get_invoice st' i = Replied 200 new \<and>
      field (doc new) ''totalHT'' = totalHT t \<and>
      field (doc new) ''totalTVA'' = totalTVA t \<and>
      field (doc new) ''timbre'' = timbre t \<and>
      field (doc new) ''totalRemise'' = totalRemise t \<and>
      field (doc new) ''totalTTC'' = totalTTC t \<and>
      (map_of (spread body) ''invoiceNumber'' = None \<longrightarrow>
         field (doc new) ''invoiceNumber'' = field (doc old) ''invoiceNumber'')"
proof -
  let ?patch = "AList.merge (spread body) (totals_fields t)"
  from updateById_Some [OF assms(1), of ?patch] obtain st' where
    u: "updateById st i ?patch = Some (st', old\<lparr> doc := AList.merge (doc old) ?patch \<rparr>)"
    and f: "findById st' i = Some (old\<lparr> doc := AList.merge (doc old) ?patch \<rparr>)" by blast
  have tot: "field (AList.merge (doc old) ?patch) k = v" if "map_of (totals_fields t) k = Some v" for k v
    using that by (simp only: field_def merge_conv' map_add_def) simp
  have num: "field (AList.merge (doc old) ?patch) ''invoiceNumber'' = field (doc old) ''invoiceNumber''"
    if "map_of (spread body) ''invoiceNumber'' = None"
    using that by (simp only: field_def merge_conv' map_add_def map_of_totals_invoiceNumber) simp
  have t1: "field (AList.merge (doc old) ?patch) ''totalHT'' = totalHT t"
    by (rule tot) (simp add: totals_fields_def)
  have t2: "field (AList.merge (doc old) ?patch) ''totalTVA'' = totalTVA t"
    by (rule tot) (simp add: totals_fields_def)
  have t3: "field (AList.merge (doc old) ?patch) ''timbre'' = timbre t"
    by (rule tot) (simp add: totals_fields_def)
  have t4: "field (AList.merge (doc old) ?patch) ''totalRemise'' = totalRemise t"
    by (rule tot) (simp add: totals_fields_def)
  have t5: "field (AList.merge (doc old) ?patch) ''totalTTC'' = totalTTC t"
    by (rule tot) (simp add: totals_fields_def)
  show ?thesis
    using u f num t1 t2 t3 t4 t5
    by (simp add: update_invoice_def assms(2) get_invoice_def)
qed

text \<open>The theorem at a store with the invoice \<^verbatim>\<open>BCC001\<close> and a body with one item of price 100.\<close>

theorem update_recomputes_totals_witness:
  "\<exists>st' new.
      update_invoice exact_ops
        [\<lparr> inv_id = ''507f1f77bcf86cd799439011'', createdAt = 1,
           doc = [(''invoiceNumber'', JStr ''BCC001''), (''totalHT'', JNum (Fin 7))] \<rparr>]
        ''507f1f77bcf86cd799439011''
        (JObj [(''items'', JArr [JObj [(''totalPrice'', JNum (Fin 100))]])]) = (st', Replied 200 new) \<and>
      get_invoice st' ''507f1f77bcf86cd799439011'' = Replied 200 new \<and>
      field (doc new) ''totalHT'' = JNum (Fin 100) \<and>
      field (doc new) ''totalTVA'' = JNum (Fin 19) \<and>
      field (doc new) ''timbre'' = JNum (Fin (1 / 10)) \<and>
      field (doc new) ''totalRemise'' = JNum (Fin 0) \<and>
      field (doc new) ''totalTTC'' = JNum (Fin (1191 / 10)) \<and>
      field (doc new) ''invoiceNumber'' = JStr ''BCC001''"
proof -
  have c: "calculateInvoiceTotals exact_ops
        (JObj [(''items'', JArr [JObj [(''totalPrice'', JNum (Fin 100))]])]) =
      Inr \<lparr> totalHT = JNum (Fin 100), totalTVA = JNum (Fin 19), timbre = JNum (Fin (1 / 10)),
         totalRemise = JNum (Fin 0), totalTTC = JNum (Fin (1191 / 10)) \<rparr>"
    by code_simp
  have f: "findById
        [\<lparr> inv_id = ''507f1f77bcf86cd799439011'', createdAt = 1,
           doc = [(''invoiceNumber'', JStr ''BCC001''), (''totalHT'', JNum (Fin (7::rat)))] \<rparr>]
        ''507f1f77bcf86cd799439011'' =
      Some \<lparr> inv_id = ''507f1f77bcf86cd799439011'', createdAt = 1,
           doc = [(''invoiceNumber'', JStr ''BCC001''), (''totalHT'', JNum (Fin 7))] \<rparr>"
    by (simp add: findById_def)
  show ?thesis
    using update_recomputes_totals [OF f c] by (simp add: field_def)
qed

text \<open>
  C3 as stated fails: the patch is \<^verbatim>\<open>{...req.body, ...calculatedTotals}\<close>, so an
  \<^verbatim>\<open>invoiceNumber\<close> in the body replaces the stored one. After the update of
  \<^verbatim>\<open>BCC001\<close> with the body \<^verbatim>\<open>{"items": [], "invoiceNumber": "BCC999"}\<close> a fetch
  returns the number \<^verbatim>\<open>BCC999\<close>.
\<close>

theorem update_overwrites_number_counterexample:
  "(case update_invoice exact_ops
          [\<lparr> inv_id = ''507f1f77bcf86cd799439011'', createdAt = 1,
             doc = [(''invoiceNumber'', JStr ''BCC001'')] \<rparr>]
          ''507f1f77bcf86cd799439011''
          (JObj [(''items'', JArr []), (''invoiceNumber'', JStr ''BCC999'')]) of
      (st', r) \<Rightarrow>
        (case get_invoice st' ''507f1f77bcf86cd799439011'' of
           Replied n new \<Rightarrow> field (doc new) ''invoiceNumber''
         | _ \<Rightarrow> JUndefined)) = JStr ''BCC999''"
  by code_simp

section \<open>Properties of the numbering\<close>

lemma of_char_digit_char: "d < 10 \<Longrightarrow> (of_char (digit_char d) :: nat) = 48 + d"
  by (simp add: digit_char_def)

lemma digit_of_digit_char: "d < 10 \<Longrightarrow> digit_of (digit_char d) = Some d"
  by (simp add: digit_of_def of_char_digit_char)

lemma dec_digits: "\<forall>c\<in>set (dec n). is_radix_digit 10 c"
proof (induction n rule: dec.induct)
  case (1 n)
  show ?case
  proof (cases "n < 10")
    case True
    then show ?thesis
      by (subst dec.simps) (simp add: is_radix_digit_def digit_of_digit_char)
  next
    case False
    with 1 show ?thesis
      by (subst dec.simps) (simp add: is_radix_digit_def digit_of_digit_char)
  qed
qed

lemma dec_nonempty: "dec n \<noteq> []"
  by (subst dec.simps) simp

lemma digits_value_snoc:
  "digits_value R (z @ [c]) = digits_value R z * R + the (digit_of c)"
  by (simp add: digits_value_def)

lemma digits_value_dec: "digits_value 10 (dec n) = n"
proof (induction n rule: dec.induct)
  case (1 n)
  show ?case
  proof (cases "n < 10")
    case True
    then show ?thesis
      by (subst dec.simps) (simp add: digits_value_def digit_of_digit_char)
  next
    case False
    with 1 have "digits_value 10 (dec (n div 10)) = n div 10" by simp
    with False show ?thesis
      by (subst dec.simps) (simp add: digits_value_snoc digit_of_digit_char)
  qed
qed

lemma digit_of_zero: "digit_of (CHR ''0'') = Some 0"
  by (simp add: digit_of_def)

lemma foldl_zeros:
  "foldl (\<lambda>a c. a * R + the (digit_of c)) 0 (replicate k (CHR ''0'')) = 0"
  by (induction k) (simp_all add: digit_of_zero)

lemma digits_value_zeros: "digits_value R (replicate k (CHR ''0'') @ z) = digits_value R z"
  by (simp add: digits_value_def foldl_zeros)

lemma radix_digit_facts:
  assumes "is_radix_digit 10 c"
  shows "\<not> is_white_space c" "c \<noteq> CHR ''-''" "c \<noteq> CHR ''+''" "c \<noteq> CHR ''x''" "c \<noteq> CHR ''X''"
    "c \<noteq> CHR ''B''"
  using assms
  by (auto simp: is_radix_digit_def digit_of_def is_white_space_def Let_def split: if_splits)

lemma bit_length_le: "n < 2 ^ w \<Longrightarrow> bit_length n \<le> w"
proof (induction w arbitrary: n)
  case 0
  then show ?case by (subst bit_length.simps) simp
next
  case (Suc w)
  show ?case
  proof (cases "n = 0")
    case True
    then show ?thesis by (subst bit_length.simps) simp
  next
    case False
    from Suc.prems have "n div 2 < 2 ^ w" by simp
    then have "bit_length (n div 2) \<le> w" by (rule Suc.IH)
    with False show ?thesis by (subst bit_length.simps) simp
  qed
qed

lemma round_double_safe: "n < 2 ^ 53 \<Longrightarrow> round_double n = n"
  using bit_length_le [of n 53] by (simp add: round_double_def)

lemma bit_length_2_53:
  "bit_length 9007199254740992 = 54" "bit_length 9007199254740993 = 54"
  by (simp_all add: bit_length.simps)

lemma round_double_2_53:
  "round_double 9007199254740992 = 9007199254740992"
  "round_double 9007199254740993 = 9007199254740992"
  by (simp_all add: round_double_def bit_length_2_53)

lemma to_Number_safe:
  assumes "n \<le> 2 ^ 53"
  shows "to_Number (int n) = IInt (int n)"
proof (cases "n < 2 ^ 53")
  case True
  then have "round_double n = n" by (rule round_double_safe)
  moreover have "bit_length n \<le> 53" using True by (rule bit_length_le)
  ultimately show ?thesis by (cases "n = 0") (simp_all add: to_Number_def)
next
  case False
  with assms have "n = 9007199254740992" by simp
  then show ?thesis by (simp add: to_Number_def round_double_2_53 bit_length_2_53)
qed

lemma to_Number_2_53_plus_1: "to_Number 9007199254740993 = IInt 9007199254740992"
  by (simp add: to_Number_def round_double_2_53 bit_length_2_53)

lemma dec_length: "0 < k \<Longrightarrow> n < 10 ^ k \<Longrightarrow> length (dec n) \<le> k"
proof (induction k arbitrary: n)
  case 0
  then show ?case by simp
next
  case (Suc k)
  show ?case
  proof (cases "n < 10")
    case True
    then show ?thesis by (subst dec.simps) simp
  next
    case False
    then have k: "0 < k" using Suc.prems(2) by (cases k) auto
    from Suc.prems have "n div 10 < 10 ^ k" by simp
    with k have "length (dec (n div 10)) \<le> k" by (rule Suc.IH)
    with False show ?thesis by (subst dec.simps) simp
  qed
qed

lemma digit_chars:
  "digit_char 0 = CHR ''0''" "digit_char 1 = CHR ''1''" "digit_char 2 = CHR ''2''"
  "digit_char 3 = CHR ''3''" "digit_char 4 = CHR ''4''" "digit_char 5 = CHR ''5''"
  "digit_char 6 = CHR ''6''" "digit_char 7 = CHR ''7''" "digit_char 8 = CHR ''8''"
  "digit_char 9 = CHR ''9''" "digit_char (Suc 0) = CHR ''1''"
proof -
  have "char_of (48 + 0 :: nat) = CHR ''0''" "char_of (48 + 1 :: nat) = CHR ''1''"
    "char_of (48 + 2 :: nat) = CHR ''2''" "char_of (48 + 3 :: nat) = CHR ''3''"
    "char_of (48 + 4 :: nat) = CHR ''4''" "char_of (48 + 5 :: nat) = CHR ''5''"
    "char_of (48 + 6 :: nat) = CHR ''6''" "char_of (48 + 7 :: nat) = CHR ''7''"
    "char_of (48 + 8 :: nat) = CHR ''8''" "char_of (48 + 9 :: nat) = CHR ''9''"
    by code_simp+
  then show "digit_char 0 = CHR ''0''" "digit_char 1 = CHR ''1''" "digit_char 2 = CHR ''2''"
    "digit_char 3 = CHR ''3''" "digit_char 4 = CHR ''4''" "digit_char 5 = CHR ''5''"
    "digit_char 6 = CHR ''6''" "digit_char 7 = CHR ''7''" "digit_char 8 = CHR ''8''"
    "digit_char 9 = CHR ''9''" "digit_char (Suc 0) = CHR ''1''"
    unfolding digit_char_def by (simp_all only: One_nat_def [symmetric])
qed

lemma dec_2_53: "dec 9007199254740992 = ''9007199254740992''"
  by (simp add: dec.simps digit_chars)

lemma shortest_unfold:
  "shortest a j =
     (if j = 0 then a
      else if round_double (a div 10 ^ j * 10 ^ j) = a \<and>
              round_double (a div 10 ^ j * 10 ^ j + 10 ^ j) = a
      then (if a - a div 10 ^ j * 10 ^ j < a div 10 ^ j * 10 ^ j + 10 ^ j - a
            then a div 10 ^ j * 10 ^ j
            else if a div 10 ^ j * 10 ^ j + 10 ^ j - a < a - a div 10 ^ j * 10 ^ j
            then a div 10 ^ j * 10 ^ j + 10 ^ j
            else if even (a div 10 ^ j) then a div 10 ^ j * 10 ^ j
            else a div 10 ^ j * 10 ^ j + 10 ^ j)
      else if round_double (a div 10 ^ j * 10 ^ j) = a then a div 10 ^ j * 10 ^ j
      else if round_double (a div 10 ^ j * 10 ^ j + 10 ^ j) = a then a div 10 ^ j * 10 ^ j + 10 ^ j
      else shortest a (j - 1))"
  by (cases j) (simp_all add: Let_def)

lemma shortest_2_53: "shortest 9007199254740992 15 = 9007199254740992"
  by (simp add: shortest_unfold round_double_def bit_length.simps Let_def)

lemma digits_text_safe:
  assumes "n \<le> 2 ^ 53"
  shows "digits_text n = dec n"
proof (cases "n < 2 ^ 53")
  case True
  then have "bit_length n \<le> 53" by (rule bit_length_le)
  moreover have "n < 10 ^ 21" using True by simp
  then have "length (dec n) \<le> 21" by (intro dec_length) simp_all
  ultimately show ?thesis by (simp add: digits_text_def)
next
  case False
  with assms have n: "n = 9007199254740992" by simp
  have l: "length (dec 9007199254740992) - 1 = 15" by (simp add: dec_2_53)
  show ?thesis
    unfolding n digits_text_def l shortest_2_53 Let_def
    by (simp add: bit_length_2_53 dec_2_53)
qed

text \<open>
  Beyond \<open>2^53\<close> the text is that of the engine: \<open>2^64\<close> is written with 17 digits and
  zeros, and \<open>10^21\<close> with an exponent.
\<close>

lemma text_of_2_64:
  "number_toString (to_Number 18446744073709551616) = ''18446744073709552000''"
  by (simp add: number_toString_def to_Number_def round_double_def bit_length.simps digits_text_def
      shortest_unfold dec.simps digit_chars Let_def)

lemma text_of_10_21: "number_toString (to_Number 1000000000000000000000) = ''1e+21''"
  by (simp add: number_toString_def to_Number_def round_double_def bit_length.simps digits_text_def
      shortest_unfold dec.simps digit_chars strip_zeros_def Let_def)

lemma parseInt_plain:
  assumes "dropWhile is_white_space z = z"
    and "take 1 z \<noteq> ''-''" and "take 1 z \<noteq> ''+''"
    and "take 2 z \<noteq> ''0x''" and "take 2 z \<noteq> ''0X''"
  shows "parseInt z =
     (if takeWhile (is_radix_digit 10) z = [] then INaN
      else to_Number (int (digits_value 10 (takeWhile (is_radix_digit 10) z))))"
  unfolding parseInt_def Let_def
  by (simp only: assms simp_thms if_False) simp

lemma parseInt_digits:
  assumes "\<forall>x\<in>set (c # cs). is_radix_digit 10 x"
  shows "parseInt (c # cs) = to_Number (int (digits_value 10 (c # cs)))"
proof -
  have c: "is_radix_digit 10 c" using assms by simp
  have t: "takeWhile (is_radix_digit 10) (c # cs) = c # cs"
    using assms by (simp add: takeWhile_eq_all_conv)
  have x: "take 2 (c # cs) \<noteq> ''0x''"
  proof (cases cs)
    case Nil
    then show ?thesis by simp
  next
    case (Cons d ds)
    with assms have "is_radix_digit 10 d" by simp
    from radix_digit_facts(4) [OF this] Cons show ?thesis by simp
  qed
  have X: "take 2 (c # cs) \<noteq> ''0X''"
  proof (cases cs)
    case Nil
    then show ?thesis by simp
  next
    case (Cons d ds)
    with assms have "is_radix_digit 10 d" by simp
    from radix_digit_facts(5) [OF this] Cons show ?thesis by simp
  qed
  have w: "dropWhile is_white_space (c # cs) = c # cs"
    using radix_digit_facts(1) [OF c] by simp
  have m: "take 1 (c # cs) \<noteq> ''-''" and p: "take 1 (c # cs) \<noteq> ''+''"
    using radix_digit_facts(2,3) [OF c] by simp_all
  show ?thesis
    by (simp only: parseInt_plain [OF w m p x X] t) simp
qed

lemma split_at_no_B:
  "\<forall>c\<in>set s. c \<noteq> CHR ''B'' \<Longrightarrow> split_at ''BCC'' cur s = [cur @ s]"
proof (induction s arbitrary: cur)
  case Nil
  show ?case by (subst split_at.simps) simp
next
  case (Cons c cs)
  then have "split_at ''BCC'' (cur @ [c]) cs = [(cur @ [c]) @ cs]" by simp
  with Cons.prems show ?case by (subst split_at.simps) auto
qed

lemma split_at_prefixed:
  "sep \<noteq> [] \<Longrightarrow> split_at sep cur (sep @ rest) = cur # split_at sep [] rest"
  by (subst split_at.simps) simp

lemma lastNumber_padded:
  "lastNumber (''BCC'' @ replicate k (CHR ''0'') @ dec n) = to_Number (int n)"
proof -
  let ?z = "replicate k (CHR ''0'') @ dec n"
  have dig: "\<forall>c\<in>set ?z. is_radix_digit 10 c"
    using dec_digits [of n] by (auto simp: is_radix_digit_def digit_of_zero)
  then have "\<forall>c\<in>set ?z. c \<noteq> CHR ''B''" using radix_digit_facts(6) by blast
  then have "split_at ''BCC'' [] ?z = [?z]" using split_at_no_B [of ?z "[]"] by simp
  moreover have "split_at ''BCC'' [] (''BCC'' @ ?z) = [] # split_at ''BCC'' [] ?z"
    by (rule split_at_prefixed) simp
  ultimately have "js_split ''BCC'' (''BCC'' @ ?z) = [[], ?z]"
    by (simp add: js_split_def)
  moreover have "parseInt ?z = to_Number (int n)"
  proof -
    obtain c cs where z: "?z = c # cs" using dec_nonempty [of n] by (cases ?z) auto
    from parseInt_digits [of c cs] dig z
    have "parseInt ?z = to_Number (int (digits_value 10 ?z))" by metis
    then show ?thesis by (simp only: digits_value_zeros digits_value_dec)
  qed
  ultimately show ?thesis by (simp add: lastNumber_def)
qed

lemma format_number_nat:
  "n \<le> 2 ^ 53 \<Longrightarrow>
   format_number (IInt (int n)) = ''BCC'' @ replicate (3 - length (dec n)) (CHR ''0'') @ dec n"
  by (simp add: format_number_def padStart0_def number_toString_def digits_text_safe)

lemma next_of_safe:
  assumes "n < 2 ^ 53"
  shows "plus_one (to_Number (int n)) = IInt (int (n + 1))"
proof -
  have "to_Number (int n) = IInt (int n)" using assms by (simp add: to_Number_safe)
  moreover have "to_Number (int (n + 1)) = IInt (int (n + 1))"
    using assms by (intro to_Number_safe) simp
  ultimately show ?thesis by (simp add: plus_one_def add.commute)
qed

lemma field_created_number:
  "field (AList.merge (AList.merge kvs [(''invoiceNumber'', v)]) (totals_fields t)) ''invoiceNumber'' = v"
  by (simp only: field_def merge_conv' map_add_def map_of_totals_invoiceNumber) simp

lemma findLatest_None: "findLatest st = None \<longleftrightarrow> st = []"
  by (cases st) (simp_all split: option.splits)

lemma create_invoice_saved:
  assumes "next_invoice_number st = Inr num" and "calculateInvoiceTotals N body = Inr t"
  shows "\<exists>saved. create_invoice N st new_id now body = (st @ [saved], Replied 201 saved) \<and>
           inv_id saved = new_id \<and> createdAt saved = now \<and>
           field (doc saved) ''invoiceNumber'' = JStr num \<and>
           field (doc saved) ''timbre'' = timbre t"
  using assms
  by (simp add: create_invoice_def insert_doc_def field_created_number field_merge_totals
      del: merge_simps)

text \<open>
  C2, as amended. The number that creation assigns is \<^verbatim>\<open>BCC001\<close> when the store
  holds no invoice; when the most recently created invoice has the number \<^verbatim>\<open>BCC\<close>
  followed by zeros and the decimal numeral of some \<open>n\<close> below \<open>2^53\<close>, it is \<^verbatim>\<open>BCC\<close>
  followed by the numeral of \<open>n + 1\<close>, padded with zeros to three digits and longer
  when the numeral is (\<^verbatim>\<open>BCC1000\<close> after \<^verbatim>\<open>BCC999\<close>). With a body on which
  \<^verbatim>\<open>calculateInvoiceTotals\<close> returns, creation answers 201 with the saved record, and
  that record carries the assigned number.
\<close>

theorem creation_number:
  "(st = [] \<longrightarrow> next_invoice_number st = Inr ''BCC001'') \<and>
   (\<forall>lastInvoice k n.
      findLatest st = Some lastInvoice \<and>
      field (doc lastInvoice) ''invoiceNumber'' = JStr (''BCC'' @ replicate k (CHR ''0'') @ dec n) \<and>
      n < 2 ^ 53 \<longrightarrow>
      next_invoice_number st =
        Inr (''BCC'' @ replicate (3 - length (dec (n + 1))) (CHR ''0'') @ dec (n + 1))) \<and>
   (\<forall>invoiceNumber t.
      next_invoice_number st = Inr invoiceNumber \<and> calculateInvoiceTotals N body = Inr t \<longrightarrow>
      (\<exists>saved. create_invoice N st new_id now body = (st @ [saved], Replied 201 saved) \<and>
         field (doc saved) ''invoiceNumber'' = JStr invoiceNumber))"
proof (intro conjI impI allI)
  assume "st = []"
  moreover have "format_number (IInt 1) = ''BCC001''" by code_simp
  ultimately show "next_invoice_number st = Inr ''BCC001''"
    by (simp add: next_invoice_number_def)
next
  fix lastInvoice k n
  assume a: "findLatest st = Some lastInvoice \<and>
      field (doc lastInvoice) ''invoiceNumber'' = JStr (''BCC'' @ replicate k (CHR ''0'') @ dec n) \<and>
      n < 2 ^ 53"
  then have n: "n < 2 ^ 53" by simp
  then have m: "n + 1 \<le> 2 ^ 53" by simp
  show "next_invoice_number st =
      Inr (''BCC'' @ replicate (3 - length (dec (n + 1))) (CHR ''0'') @ dec (n + 1))"
    using a by (simp only: next_invoice_number_def lastNumber_padded next_of_safe [OF n]
        format_number_nat [OF m] option.case jsval.case)
next
  fix invoiceNumber t
  assume "next_invoice_number st = Inr invoiceNumber \<and> calculateInvoiceTotals N body = Inr t"
  then have n: "next_invoice_number st = Inr invoiceNumber"
    and c: "calculateInvoiceTotals N body = Inr t" by simp_all
  from create_invoice_saved [OF n c]
  show "\<exists>saved. create_invoice N st new_id now body = (st @ [saved], Replied 201 saved) \<and>
         field (doc saved) ''invoiceNumber'' = JStr invoiceNumber"
    by blast
qed

text \<open>
  The theorem at the empty store, and at a store whose latest invoice is \<^verbatim>\<open>BCC003\<close>
  (two zeros and the numeral of 3), where creation saves an invoice \<^verbatim>\<open>BCC004\<close>.
\<close>

theorem creation_number_witness:
  "next_invoice_number ([] :: exact store) = Inr ''BCC001'' \<and>
   (\<exists>saved. create_invoice exact_ops
       [\<lparr> inv_id = ''507f1f77bcf86cd799439011'', createdAt = 1,
          doc = [(''invoiceNumber'', JStr ''BCC003'')] \<rparr>]
       ''507f1f77bcf86cd799439012'' 2 (JObj [(''items'', JArr [])]) =
        ([\<lparr> inv_id = ''507f1f77bcf86cd799439011'', createdAt = 1,
            doc = [(''invoiceNumber'', JStr ''BCC003'')] \<rparr>] @ [saved], Replied 201 saved) \<and>
      field (doc saved) ''invoiceNumber'' = JStr ''BCC004'')"
proof -
  let ?last = "\<lparr> inv_id = ''507f1f77bcf86cd799439011'', createdAt = 1,
          doc = [(''invoiceNumber'', JStr ''BCC003'') :: string \<times> exact jsval] \<rparr>"
  let ?body = "JObj [(''items'', JArr [])] :: exact jsval"
  have c: "calculateInvoiceTotals exact_ops ?body =
      Inr \<lparr> totalHT = JNum (Fin 0), totalTVA = JNum (Fin 0), timbre = JNum (Fin (1 / 10)),
         totalRemise = JNum (Fin 0), totalTTC = JNum (Fin (1 / 10)) \<rparr>"
    by code_simp
  have d3: "dec 3 = ''3''" and d4: "dec (3 + 1) = ''4''" by code_simp+
  have b: "(3::nat) < 2 ^ 53" by simp
  have "replicate 2 (CHR ''0'') = ''00''" by (simp add: numeral_2_eq_2)
  then have l: "findLatest [?last] = Some ?last \<and>
      field (doc ?last) ''invoiceNumber'' = JStr (''BCC'' @ replicate 2 (CHR ''0'') @ dec 3) \<and>
      (3::nat) < 2 ^ 53"
    using b by (simp add: field_def d3)
  have r: "''BCC'' @ replicate (3 - length (dec (3 + 1))) (CHR ''0'') @ dec (3 + 1) = ''BCC004''"
    by (simp only: d4) (simp add: numeral_2_eq_2)
  note empty_th = creation_number [of "[] :: exact store" exact_ops ?body "''507f1f77bcf86cd799439012''" 2]
  note last_th = creation_number [of "[?last]" exact_ops ?body "''507f1f77bcf86cd799439012''" 2]
  have 1: "next_invoice_number ([] :: exact store) = Inr ''BCC001''"
    using empty_th [THEN conjunct1] by simp
  have 2: "next_invoice_number [?last] = Inr ''BCC004''"
    using last_th [THEN conjunct2, THEN conjunct1, rule_format, OF l] by (simp only: r)
  have 3: "next_invoice_number [?last] = Inr ''BCC004'' \<and>
      calculateInvoiceTotals exact_ops ?body = Inr \<lparr> totalHT = JNum (Fin 0), totalTVA = JNum (Fin 0),
         timbre = JNum (Fin (1 / 10)), totalRemise = JNum (Fin 0), totalTTC = JNum (Fin (1 / 10)) \<rparr>"
    using 2 c by (intro conjI)
  from 1 last_th [THEN conjunct2, THEN conjunct2, rule_format, OF 3]
  show ?thesis by (intro conjI)
qed

text \<open>
  C2 as stated, for every earlier number \<open>N\<close>, fails: the suffix is read, incremented
  and written as a double. At \<open>N = 2^53 = 9007199254740992\<close> the sum \<open>N + 1\<close> is not a
  double and rounds back to \<open>N\<close>, so the new invoice gets the number of the last one
  again, \<^verbatim>\<open>BCC9007199254740992\<close>, not \<^verbatim>\<open>BCC9007199254740993\<close>.
\<close>

theorem number_repeated_counterexample:
  "(case create_invoice exact_ops
          [\<lparr> inv_id = ''507f1f77bcf86cd799439011'', createdAt = 1,
             doc = [(''invoiceNumber'', JStr ''BCC9007199254740992'')] \<rparr>]
          ''507f1f77bcf86cd799439012'' 2 (JObj [(''items'', JArr [])]) of
      (st', Replied n saved) \<Rightarrow> field (doc saved) ''invoiceNumber''
    | (st', other) \<Rightarrow> JUndefined) = JStr ''BCC9007199254740992''"
proof -
  let ?last = "\<lparr> inv_id = ''507f1f77bcf86cd799439011'', createdAt = 1,
          doc = [(''invoiceNumber'', JStr ''BCC9007199254740992'') :: string \<times> exact jsval] \<rparr>"
  let ?body = "JObj [(''items'', JArr [])] :: exact jsval"
  have c: "calculateInvoiceTotals exact_ops ?body =
      Inr \<lparr> totalHT = JNum (Fin 0), totalTVA = JNum (Fin 0), timbre = JNum (Fin (1 / 10)),
         totalRemise = JNum (Fin 0), totalTTC = JNum (Fin (1 / 10)) \<rparr>"
    by code_simp
  have "lastNumber (''BCC'' @ replicate 0 (CHR ''0'') @ dec 9007199254740992) =
      to_Number (int 9007199254740992)"
    by (rule lastNumber_padded)
  then have "lastNumber ''BCC9007199254740992'' = IInt 9007199254740992"
    by (simp add: dec_2_53 to_Number_def round_double_2_53 bit_length_2_53)
  then have "plus_one (lastNumber ''BCC9007199254740992'') = IInt 9007199254740992"
    by (simp add: plus_one_def to_Number_2_53_plus_1)
  moreover have "format_number (IInt 9007199254740992) = ''BCC9007199254740992''"
    using format_number_nat [of 9007199254740992] by (simp add: dec_2_53)
  ultimately have n: "next_invoice_number [?last] = Inr ''BCC9007199254740992''"
    by (simp add: next_invoice_number_def field_def)
  from create_invoice_saved [OF n c, of "''507f1f77bcf86cd799439012''" 2]
  obtain saved where
    "create_invoice exact_ops [?last] ''507f1f77bcf86cd799439012'' 2 ?body =
       ([?last] @ [saved], Replied 201 saved)"
    "field (doc saved) ''invoiceNumber'' = JStr ''BCC9007199254740992''"
    by blast
  then show ?thesis by simp
qed

lemma after_BCC999: "format_number (plus_one (lastNumber ''BCC999'')) = ''BCC1000''"
  by code_simp








lemma numeric_prefix_run: "format_number (plus_one (lastNumber ''BCC12abc'')) = ''BCC013''"
  by code_simp

section \<open>The stamp duty\<close>

lemma create_invoice_replied:
  assumes "create_invoice N st new_id now body = (st', Replied n saved)"
  shows "\<exists>t. calculateInvoiceTotals N body = Inr t \<and> field (doc saved) ''timbre'' = timbre t"
  using assms
  by (auto simp: create_invoice_def insert_doc_def field_merge_totals
      split: sum.splits simp del: merge_simps)

lemma update_invoice_replied:
  assumes "update_invoice N st i body = (st', Replied n new)"
  shows "\<exists>t. calculateInvoiceTotals N body = Inr t \<and> field (doc new) ''timbre'' = timbre t"
proof -
  from assms obtain t where t: "calculateInvoiceTotals N body = Inr t"
    and u: "updateById st i (AList.merge (spread body) (totals_fields t)) = Some (st', new)"
    by (auto simp: update_invoice_def split: sum.splits option.splits)
  from updateById_result [OF u] obtain old where
    "new = old\<lparr> doc := AList.merge (doc old) (AList.merge (spread body) (totals_fields t)) \<rparr>"
    by blast
  moreover have "field (AList.merge (doc old) (AList.merge (spread body) (totals_fields t))) ''timbre'' = timbre t"
    by (rule field_patch_totals) (simp add: totals_fields_def)
  ultimately show ?thesis using t by simp
qed

text \<open>
  C9. For every body whose \<^verbatim>\<open>timbre\<close> is falsy (missing, \<^verbatim>\<open>null\<close>, \<^verbatim>\<open>false\<close>, the
  empty string, or a Number that is falsy, as 0 is), the \<^verbatim>\<open>timbre\<close> that
  \<^verbatim>\<open>calculateInvoiceTotals\<close> returns is 0.1, and so is the \<^verbatim>\<open>timbre\<close> of the record
  that creation saves and of the record that the update stores: a stamp duty of 0
  cannot be expressed through either.
\<close>

theorem falsy_timbre_replaced:
  assumes "get_prop body ''timbre'' = Inr t" and "\<not> truthy N t"
  shows "(\<forall>r. calculateInvoiceTotals N body = Inr r \<longrightarrow> timbre r = JNum (n_lit N (1 / 10))) \<and>
         (\<forall>st new_id now st' n saved.
            create_invoice N st new_id now body = (st', Replied n saved) \<longrightarrow>
            field (doc saved) ''timbre'' = JNum (n_lit N (1 / 10))) \<and>
         (\<forall>st i st' n new.
            update_invoice N st i body = (st', Replied n new) \<longrightarrow>
            field (doc new) ''timbre'' = JNum (n_lit N (1 / 10)))"
proof -
  have c: "timbre r = JNum (n_lit N (1 / 10))" if "calculateInvoiceTotals N body = Inr r" for r
    using calc_returns_timbre [OF that] assms by (simp add: js_or_def)
  show ?thesis
    using c create_invoice_replied update_invoice_replied by metis
qed

text \<open>
  The theorem at the body \<^verbatim>\<open>{"items": [], "timbre": 0}\<close>: the calculator returns the
  stamp duty 0.1, and creation saves it.
\<close>

theorem falsy_timbre_replaced_witness:
  "map_sum id timbre
     (calculateInvoiceTotals exact_ops (JObj [(''items'', JArr []), (''timbre'', JNum (Fin 0))])) =
     Inr (JNum (Fin (1 / 10))) \<and>
   (\<exists>st' saved.
      create_invoice exact_ops [] ''507f1f77bcf86cd799439011'' 1
        (JObj [(''items'', JArr []), (''timbre'', JNum (Fin 0))]) = (st', Replied 201 saved) \<and>
      field (doc saved) ''timbre'' = JNum (Fin (1 / 10)))"
proof -
  let ?body = "JObj [(''items'', JArr []), (''timbre'', JNum (Fin 0))]"
  have g: "get_prop ?body ''timbre'' = Inr (JNum (Fin 0))" by (simp add: field_def)
  have f: "\<not> truthy exact_ops (JNum (Fin 0))" by (simp add: exact_ops_def)
  have c: "calculateInvoiceTotals exact_ops ?body =
      Inr \<lparr> totalHT = JNum (Fin 0), totalTVA = JNum (Fin 0), timbre = JNum (Fin (1 / 10)),
         totalRemise = JNum (Fin 0), totalTTC = JNum (Fin (1 / 10)) \<rparr>"
    by code_simp
  have n: "next_invoice_number ([] :: exact store) = Inr ''BCC001''" by code_simp
  from create_invoice_saved [OF n c, of "''507f1f77bcf86cd799439011''" 1] obtain saved where
    s: "create_invoice exact_ops [] ''507f1f77bcf86cd799439011'' 1 ?body = ([] @ [saved], Replied 201 saved)"
    by blast
  from falsy_timbre_replaced [OF g f] s
  have "field (doc saved) ''timbre'' = JNum (n_lit exact_ops (1 / 10))" by blast
  moreover from falsy_timbre_replaced [OF g f] c
  have "timbre \<lparr> totalHT = JNum (Fin 0), totalTVA = JNum (Fin 0), timbre = JNum (Fin (1 / 10)),
         totalRemise = JNum (Fin 0), totalTTC = JNum (Fin (1 / 10)) \<rparr> = JNum (n_lit exact_ops (1 / 10))"
    by blast
  ultimately show ?thesis using s c by (simp add: exact_ops_def)
qed

section \<open>Properties of the delivery controller\<close>

lemma valid_id_iff:
  "valid_id s \<longleftrightarrow> length s = 24 \<and> (\<forall>c\<in>set s. c \<in> set ''0123456789abcdefABCDEF'')"
  by (simp add: valid_id_def is_hex_digit_def list_all_iff)

text \<open>
  C7. For every identifier that is not exactly 24 hexadecimal characters the route answers
  400 with the code \<^verbatim>\<open>INVALID_ID_FORMAT\<close> and has looked nothing up in the store; for
  every identifier of 24 hexadecimal characters that the store does not hold it answers
  404 with the code \<^verbatim>\<open>INVOICE_NOT_FOUND\<close>, after one lookup of that identifier.
\<close>

theorem identifier_checked_first:
  "(length ident \<noteq> 24 \<or> (\<exists>c\<in>set ident. c \<notin> set ''0123456789abcdefABCDEF'') \<longrightarrow>
      response (pdf_route env st ident render) =
        Refused 400 ''Format d'ID de facture invalide'' ''INVALID_ID_FORMAT'' \<and>
      store_reads (pdf_route env st ident render) = []) \<and>
   (length ident = 24 \<and> (\<forall>c\<in>set ident. c \<in> set ''0123456789abcdefABCDEF'') \<and>
    findById st ident = None \<longrightarrow>
      response (pdf_route env st ident render) =
        Refused 404 ''Facture introuvable'' ''INVOICE_NOT_FOUND'' \<and>
      store_reads (pdf_route env st ident render) = [ident])"
proof -
  have v: "valid_id ident \<longleftrightarrow>
      \<not> (length ident \<noteq> 24 \<or> (\<exists>c\<in>set ident. c \<notin> set ''0123456789abcdefABCDEF''))"
    by (auto simp: valid_id_iff)
  show ?thesis
    unfolding pdf_route_def v by (simp del: set_simps)
qed

text \<open>The theorem at \<^verbatim>\<open>not-an-id\<close> and at a well-formed identifier, on the empty store.\<close>

theorem identifier_checked_first_witness:
  "response (pdf_route
      \<lparr> NODE_ENV = Some ''production'', now_iso = ''2024-05-01T10:00:00.000Z'',
        stack_of = (\<lambda>m. ''Error: '' @ m), numbers = exact_ops \<rparr>
      ([] :: exact store) ''not-an-id'' Never) =
     Refused 400 ''Format d'ID de facture invalide'' ''INVALID_ID_FORMAT'' \<and>
   store_reads (pdf_route
      \<lparr> NODE_ENV = Some ''production'', now_iso = ''2024-05-01T10:00:00.000Z'',
        stack_of = (\<lambda>m. ''Error: '' @ m), numbers = exact_ops \<rparr>
      ([] :: exact store) ''not-an-id'' Never) = [] \<and>
   response (pdf_route
      \<lparr> NODE_ENV = Some ''production'', now_iso = ''2024-05-01T10:00:00.000Z'',
        stack_of = (\<lambda>m. ''Error: '' @ m), numbers = exact_ops \<rparr>
      ([] :: exact store) ''507f1f77bcf86cd799439011'' Never) =
     Refused 404 ''Facture introuvable'' ''INVOICE_NOT_FOUND'' \<and>
   store_reads (pdf_route
      \<lparr> NODE_ENV = Some ''production'', now_iso = ''2024-05-01T10:00:00.000Z'',
        stack_of = (\<lambda>m. ''Error: '' @ m), numbers = exact_ops \<rparr>
      ([] :: exact store) ''507f1f77bcf86cd799439011'' Never) = [''507f1f77bcf86cd799439011'']"
proof -
  have a: "length ''not-an-id'' \<noteq> 24 \<or> (\<exists>c\<in>set ''not-an-id''. c \<notin> set ''0123456789abcdefABCDEF'')"
    by simp
  have "valid_id ''507f1f77bcf86cd799439011''" by code_simp
  then have b: "length ''507f1f77bcf86cd799439011'' = 24 \<and>
      (\<forall>c\<in>set ''507f1f77bcf86cd799439011''. c \<in> set ''0123456789abcdefABCDEF'') \<and>
      findById ([] :: exact store) ''507f1f77bcf86cd799439011'' = None"
    unfolding valid_id_iff by (simp add: findById_def)
  show ?thesis
    using identifier_checked_first [of "''not-an-id''" _ "[] :: exact store" Never] a
      identifier_checked_first [of "''507f1f77bcf86cd799439011''" _ "[] :: exact store" Never] b
    by blast
qed

lemma includes_timeout_message: "str_includes timeout_message ''timeout''"
  by code_simp

lemma classify_timeout_message:
  "statusCode (classify timeout_message) = 504"
  "errorCode (classify timeout_message) = ''PDF_TIMEOUT''"
  by (simp_all add: classify_def includes_timeout_message)

lemma pdf_route_found:
  assumes "valid_id ident" and "findById st ident = Some invoice"
  shows "response (pdf_route env st ident render) = fst (after_race env invoice (promise_race render))"
    and "warnings (pdf_route env st ident render) = snd (after_race env invoice (promise_race render))"
    and "store_reads (pdf_route env st ident render) = [ident]"
  using assms by (simp_all add: pdf_route_def try_deliver_def)

lemma after_race_error:
  assumes "r = Inl m \<or>
           (\<exists>pdfBuffer. r = Inr pdfBuffer \<and> verify_pdf pdfBuffer = Inl m) \<or>
           (\<exists>pdfBuffer ws. r = Inr pdfBuffer \<and> verify_pdf pdfBuffer = Inr ws \<and>
              send_headers env invoice = Some m)"
  shows "fst (after_race env invoice r) = catch_error env invoice m"
  using assms by (auto simp: after_race_def)

lemma classify_first_match:
  "(statusCode (classify m), errorCode (classify m)) = spec_first_match spec_classes m"
  by (simp add: classify_def spec_classes_def)

lemma classify_message:
  "errorMessage (classify m) =
     (if statusCode (classify m) = 422 then m else spec_message (statusCode (classify m)))"
  by (simp add: classify_def spec_message_def)

text \<open>
  C4, as amended. On the failure path of the route (the race rejected, the verification
  raised, or the headers could not be written, with the error text \<open>m\<close>) the status and the
  code are those of the first class
  of the table of the spec with a text that occurs in \<open>m\<close>, in the order timeout (504),
  memory (507), browser or puppeteer (503), not found (404), vide or corrompu (422), and
  500 when none does. Every class but 422 answers with its fixed localized message; the
  class 422 answers with the error text itself, in every configuration. The
  \<^verbatim>\<open>debug\<close> object (the error text and the stack) is in the response exactly when
  \<^verbatim>\<open>NODE_ENV\<close> is \<^verbatim>\<open>development\<close>.
\<close>

theorem failure_classification:
  assumes "valid_id ident" and "findById st ident = Some invoice"
    and "promise_race render = Inl m \<or>
         (\<exists>pdfBuffer. promise_race render = Inr pdfBuffer \<and> verify_pdf pdfBuffer = Inl m) \<or>
         (\<exists>pdfBuffer ws. promise_race render = Inr pdfBuffer \<and> verify_pdf pdfBuffer = Inr ws \<and>
            send_headers env invoice = Some m)"
  shows "response (pdf_route env st ident render) =
     Failed (fst (spec_first_match spec_classes m))
       \<lparr> b_message = (if fst (spec_first_match spec_classes m) = 422 then m
                      else spec_message (fst (spec_first_match spec_classes m))),
         b_code = snd (spec_first_match spec_classes m),
         b_invoiceNumber = field (doc invoice) ''invoiceNumber'',
         b_timestamp = now_iso env,
         b_debug = (if NODE_ENV env = Some ''development'' then Some (m, stack_of env m) else None) \<rparr>"
proof -
  have "response (pdf_route env st ident render) = catch_error env invoice m"
    using pdf_route_found(1) [OF assms(1,2), of env render]
      after_race_error [OF assms(3)] by simp
  moreover have "statusCode (classify m) = fst (spec_first_match spec_classes m)"
    and "errorCode (classify m) = snd (spec_first_match spec_classes m)"
    using classify_first_match [of m] by (metis fst_conv, metis snd_conv)
  ultimately show ?thesis
    using classify_message [of m] by (simp add: catch_error_def)
qed

text \<open>The theorem in development configuration, at a render that rejects with \<^verbatim>\<open>Out of memory\<close>.\<close>

theorem failure_classification_witness:
  "response (pdf_route
      \<lparr> NODE_ENV = Some ''development'', now_iso = ''2024-05-01T10:00:00.000Z'',
        stack_of = (\<lambda>m. ''Error: '' @ m), numbers = exact_ops \<rparr>
      [\<lparr> inv_id = ''507f1f77bcf86cd799439011'', createdAt = 1,
         doc = [(''invoiceNumber'', JStr ''BCC001'') :: string \<times> exact jsval] \<rparr>]
      ''507f1f77bcf86cd799439011''
      (Settles 10 (Inl ''Out of memory''))) =
   Failed 507
     \<lparr> b_message = msg_507, b_code = ''INSUFFICIENT_MEMORY'', b_invoiceNumber = JStr ''BCC001'',
       b_timestamp = ''2024-05-01T10:00:00.000Z'',
       b_debug = Some (''Out of memory'', ''Error: Out of memory'') \<rparr>"
proof -
  let ?inv = "\<lparr> inv_id = ''507f1f77bcf86cd799439011'', createdAt = 1,
         doc = [(''invoiceNumber'', JStr ''BCC001'') :: string \<times> exact jsval] \<rparr>"
  have v: "valid_id ''507f1f77bcf86cd799439011''" by code_simp
  have f: "findById [?inv] ''507f1f77bcf86cd799439011'' = Some ?inv" by (simp add: findById_def)
  have r: "promise_race (Settles 10 (Inl ''Out of memory'')) = Inl ''Out of memory'' \<or>
         (\<exists>pdfBuffer. promise_race (Settles 10 (Inl ''Out of memory'')) = Inr pdfBuffer \<and>
            verify_pdf pdfBuffer = Inl ''Out of memory'') \<or>
         (\<exists>pdfBuffer ws. promise_race (Settles 10 (Inl ''Out of memory'')) = Inr pdfBuffer \<and>
            verify_pdf pdfBuffer = Inr ws \<and>
            send_headers \<lparr> NODE_ENV = Some ''development'', now_iso = ''2024-05-01T10:00:00.000Z'',
              stack_of = (\<lambda>m. ''Error: '' @ m), numbers = exact_ops \<rparr> ?inv = Some ''Out of memory'')"
    by (simp add: promise_race_def timeoutMs_def)
  have m: "spec_first_match spec_classes ''Out of memory'' = (507, ''INSUFFICIENT_MEMORY'')"
    by code_simp
  have s: "spec_message 507 = msg_507" by (simp add: spec_message_def)
  have d: "field (doc ?inv) ''invoiceNumber'' = JStr ''BCC001''" by (simp add: field_def)
  show ?thesis
    by (simp only: failure_classification [OF v f r] m s d fst_conv snd_conv) simp
qed

text \<open>
  C4 as stated fails: the class 422 has no message of its own, and the raw error text
  reaches the caller outside development. In production configuration a render that
  rejects because the engine's files are missing (\<^verbatim>\<open>provide\<close> holds \<^verbatim>\<open>vide\<close>) is
  answered with 422 and that very text as the message.
\<close>

theorem raw_text_in_production_counterexample:
  "(case response (pdf_route
        \<lparr> NODE_ENV = Some ''production'', now_iso = ''2024-05-01T10:00:00.000Z'',
          stack_of = (\<lambda>m. ''Error: '' @ m), numbers = exact_ops \<rparr>
        [\<lparr> inv_id = ''507f1f77bcf86cd799439011'', createdAt = 1,
           doc = [(''invoiceNumber'', JStr ''BCC001'') :: string \<times> exact jsval] \<rparr>]
        ''507f1f77bcf86cd799439011''
        (Settles 10 (Inl (wrap_error ''Please provide the location of the brotli files'')))) of
      Failed n b \<Rightarrow> (n, b_code b, b_message b, b_debug b)
    | other \<Rightarrow> (0, [], [], None)) =
   (422, ''PDF_VALIDATION_ERROR'',
    wrap_error ''Please provide the location of the brotli files'', None)"
proof -
  let ?inv = "\<lparr> inv_id = ''507f1f77bcf86cd799439011'', createdAt = 1,
         doc = [(''invoiceNumber'', JStr ''BCC001'') :: string \<times> exact jsval] \<rparr>"
  let ?m = "wrap_error ''Please provide the location of the brotli files''"
  have v: "valid_id ''507f1f77bcf86cd799439011''" by code_simp
  have f: "findById [?inv] ''507f1f77bcf86cd799439011'' = Some ?inv" by (simp add: findById_def)
  have c: "classify ?m =
    \<lparr> statusCode = 422, errorMessage = ?m, errorCode = ''PDF_VALIDATION_ERROR'' \<rparr>"
    by code_simp
  have r: "promise_race (Settles 10 (Inl ?m)) = Inl ?m"
    by (simp add: promise_race_def timeoutMs_def)
  show ?thesis
    by (simp only: pdf_route_found(1) [OF v f] r) (simp add: after_race_def catch_error_def c)
qed

text \<open>
  C6. For a well-formed identifier of a stored invoice, the render is raced against a
  timeout of 120000 ms: when the timer settles first, that is when the render never
  settles or has not settled before the timer fires at 120000 ms, the caller receives
  the status 504 with the code \<^verbatim>\<open>PDF_TIMEOUT\<close>; when the render settles first, the
  response and the warnings are those of the rest of the \<^verbatim>\<open>try\<close> block on the
  render's own result, whatever the timer does later.
\<close>

theorem render_raced_against_timeout:
  assumes "valid_id ident" and "findById st ident = Some invoice"
  shows "timeoutMs = 120000 \<and>
     (render = Never \<or> (\<exists>t r. render = Settles t r \<and> timeoutMs \<le> t) \<longrightarrow>
        response_status (response (pdf_route env st ident render)) = 504 \<and>
        response_code (response (pdf_route env st ident render)) = Some ''PDF_TIMEOUT'') \<and>
     (\<forall>t r. render = Settles t r \<and> t < timeoutMs \<longrightarrow>
        (response (pdf_route env st ident render), warnings (pdf_route env st ident render)) =
          after_race env invoice r)"
proof (intro conjI impI allI)
  show "timeoutMs = 120000" by (simp add: timeoutMs_def)
next
  assume "render = Never \<or> (\<exists>t r. render = Settles t r \<and> timeoutMs \<le> t)"
  then have "promise_race render = Inl timeout_message"
    by (auto simp: promise_race_def)
  then have r: "response (pdf_route env st ident render) = catch_error env invoice timeout_message"
    using pdf_route_found(1) [OF assms, of env render] by (simp add: after_race_def)
  show "response_status (response (pdf_route env st ident render)) = 504"
    by (simp add: r catch_error_def classify_timeout_message)
  show "response_code (response (pdf_route env st ident render)) = Some ''PDF_TIMEOUT''"
    by (simp add: r catch_error_def classify_timeout_message)
next
  fix t r
  assume "render = Settles t r \<and> t < timeoutMs"
  then have "promise_race render = r" by (simp add: promise_race_def)
  then show "(response (pdf_route env st ident render), warnings (pdf_route env st ident render)) =
          after_race env invoice r"
    using pdf_route_found(1,2) [OF assms, of env render] by simp
qed

text \<open>
  The theorem at a render that resolves with a well-formed document at 120000 ms, the
  very time the timer fires, which is answered with 504, and at one that resolves with
  the same document at 119999 ms, which is delivered.
\<close>

theorem render_raced_against_timeout_witness:
  "timeoutMs = 120000 \<and>
   response_status (response (pdf_route
      \<lparr> NODE_ENV = Some ''production'', now_iso = ''2024-05-01T10:00:00.000Z'',
        stack_of = (\<lambda>m. ''Error: '' @ m), numbers = exact_ops \<rparr>
      [\<lparr> inv_id = ''507f1f77bcf86cd799439011'', createdAt = 1,
         doc = [(''invoiceNumber'', JStr ''BCC001'') :: string \<times> exact jsval] \<rparr>]
      ''507f1f77bcf86cd799439011''
      (Settles 120000 (Inr (''%PDF'' @ replicate 1000 (CHR ''x'') @ ''%%EOF''))))) = 504 \<and>
   response_code (response (pdf_route
      \<lparr> NODE_ENV = Some ''production'', now_iso = ''2024-05-01T10:00:00.000Z'',
        stack_of = (\<lambda>m. ''Error: '' @ m), numbers = exact_ops \<rparr>
      [\<lparr> inv_id = ''507f1f77bcf86cd799439011'', createdAt = 1,
         doc = [(''invoiceNumber'', JStr ''BCC001'') :: string \<times> exact jsval] \<rparr>]
      ''507f1f77bcf86cd799439011''
      (Settles 120000 (Inr (''%PDF'' @ replicate 1000 (CHR ''x'') @ ''%%EOF''))))) =
     Some ''PDF_TIMEOUT'' \<and>
   response (pdf_route
      \<lparr> NODE_ENV = Some ''production'', now_iso = ''2024-05-01T10:00:00.000Z'',
        stack_of = (\<lambda>m. ''Error: '' @ m), numbers = exact_ops \<rparr>
      [\<lparr> inv_id = ''507f1f77bcf86cd799439011'', createdAt = 1,
         doc = [(''invoiceNumber'', JStr ''BCC001'') :: string \<times> exact jsval] \<rparr>]
      ''507f1f77bcf86cd799439011''
      (Settles 119999 (Inr (''%PDF'' @ replicate 1000 (CHR ''x'') @ ''%%EOF'')))) =
     Delivered (''%PDF'' @ replicate 1000 (CHR ''x'') @ ''%%EOF'')"
proof -
  let ?inv = "\<lparr> inv_id = ''507f1f77bcf86cd799439011'', createdAt = 1,
         doc = [(''invoiceNumber'', JStr ''BCC001'') :: string \<times> exact jsval] \<rparr>"
  let ?env = "\<lparr> NODE_ENV = Some ''production'', now_iso = ''2024-05-01T10:00:00.000Z'',
        stack_of = (\<lambda>m. ''Error: '' @ m), numbers = exact_ops \<rparr>"
  let ?buf = "''%PDF'' @ replicate 1000 (CHR ''x'') @ ''%%EOF''"
  have v: "valid_id ''507f1f77bcf86cd799439011''" by code_simp
  have f: "findById [?inv] ''507f1f77bcf86cd799439011'' = Some ?inv" by (simp add: findById_def)
  have late: "Settles 120000 (Inr ?buf) = Never \<or>
      (\<exists>t r. Settles 120000 (Inr ?buf) = Settles t r \<and> timeoutMs \<le> t)"
    by (simp add: timeoutMs_def)
  have intime: "Settles 119999 (Inr ?buf) = Settles 119999 (Inr ?buf) \<and> (119999::nat) < timeoutMs"
    by (simp add: timeoutMs_def)
  have e: "str_includes ''x%%EOF'' ''%%EOF''" by code_simp
  have ok: "verify_pdf ?buf = Inr []"
    by (simp add: verify_pdf_def e)
  have h: "send_headers ?env ?inv = None" by code_simp
  note late_th = render_raced_against_timeout [OF v f, of "Settles 120000 (Inr ?buf)" ?env]
  note intime_th = render_raced_against_timeout [OF v f, of "Settles 119999 (Inr ?buf)" ?env]
  note 1 = late_th [THEN conjunct1]
  note 2 = late_th [THEN conjunct2, THEN conjunct1, rule_format, OF late]
  from intime_th [THEN conjunct2, THEN conjunct2, rule_format, OF intime]
  have "response (pdf_route ?env [?inv] ''507f1f77bcf86cd799439011'' (Settles 119999 (Inr ?buf))) =
      fst (after_race ?env ?inv (Inr ?buf))"
    by (metis fst_conv)
  also have "\<dots> = Delivered ?buf"
    by (simp only: after_race_def ok h sum.case option.case fst_conv)
  finally have 3: "response (pdf_route ?env [?inv] ''507f1f77bcf86cd799439011'' (Settles 119999 (Inr ?buf))) =
      Delivered ?buf" .
  from 1 2 3 show ?thesis by (intro conjI) (simp_all only:)
qed

lemma verify_pdf_rejects:
  "(\<exists>m. verify_pdf b = Inl m) \<longleftrightarrow> length b < 1000 \<or> take 4 b \<noteq> ''%PDF''"
  by (auto simp: verify_pdf_def)

lemma verify_pdf_messages:
  "b = [] \<Longrightarrow> verify_pdf b = Inl msg_empty"
  "b \<noteq> [] \<Longrightarrow> length b < 1000 \<Longrightarrow> verify_pdf b = Inl msg_too_small"
  "1000 \<le> length b \<Longrightarrow> take 4 b \<noteq> ''%PDF'' \<Longrightarrow> verify_pdf b = Inl msg_not_pdf"
  by (auto simp: verify_pdf_def)

lemma verify_pdf_accepts:
  assumes "1000 \<le> length b" and "take 4 b = ''%PDF''"
  shows "verify_pdf b =
     Inr (if str_includes (drop (length b - 6) b) ''%%EOF'' then [] else [warn_no_eof])"
  using assms by (auto simp: verify_pdf_def)

lemma verified_delivered:
  assumes "valid_id ident" and "findById st ident = Some invoice"
    and "t < timeoutMs" and "1000 \<le> length b" and "take 4 b = ''%PDF''"
    and "send_headers env invoice = None"
  shows "response (pdf_route env st ident (Settles t (Inr b))) = Delivered b"
    and "warnings (pdf_route env st ident (Settles t (Inr b))) =
      (if str_includes (drop (length b - 6) b) ''%%EOF'' then [] else [warn_no_eof])"
  using pdf_route_found(1,2) [OF assms(1,2), of env "Settles t (Inr b)"] assms(3,6)
    verify_pdf_accepts [OF assms(4,5)]
  by (simp_all add: after_race_def promise_race_def)

text \<open>
  The headers can be written when the invoice number is a text of characters allowed in
  a header value and the time stamp is one of \<^verbatim>\<open>toISOString\<close>, as in
  \<^verbatim>\<open>BCC001\<close> on the first of May 2024; a line feed in the invoice number is refused, and
  the verified document is answered with 500.
\<close>

lemma headers_written:
  "send_headers
     \<lparr> NODE_ENV = Some ''production'', now_iso = ''2024-05-01T10:00:00.000Z'',
       stack_of = (\<lambda>m. ''Error: '' @ m), numbers = exact_ops \<rparr>
     \<lparr> inv_id = ''507f1f77bcf86cd799439011'', createdAt = 1,
       doc = [(''invoiceNumber'', JStr ''BCC001'')] \<rparr> = None"
  by code_simp

lemma content_disposition_run:
  "content_disposition (''BCC 1'' @ [CHR 0xE9]) ''2024-05-01T10:00:00.000Z'' =
     ''attachment; filename='' @ [CHR 0x22] @ ''Facture_BCC 1'' @ [CHR 0xE9] @ ''_2024-05-01.pdf'' @
     [CHR 0x22] @ ''; filename*=UTF-8'' @ [CHR 0x27, CHR 0x27] @
     ''Facture_BCC%201%C3%A9_2024-05-01.pdf''"
  by code_simp

lemma headers_refused:
  "send_headers
     \<lparr> NODE_ENV = Some ''production'', now_iso = ''2024-05-01T10:00:00.000Z'',
       stack_of = (\<lambda>m. ''Error: '' @ m), numbers = exact_ops \<rparr>
     \<lparr> inv_id = ''507f1f77bcf86cd799439011'', createdAt = 1,
       doc = [(''invoiceNumber'', JStr (''BCC'' @ [CHR 0x0A] @ ''1''))] \<rparr> = Some msg_invalid_header"
  by code_simp

lemma classify_msg_invalid_header:
  "classify msg_invalid_header =
     \<lparr> statusCode = 500, errorMessage = msg_generic, errorCode = ''PDF_GENERATION_ERROR'' \<rparr>"
  by code_simp

lemma headers_refused_run:
  "response (pdf_route
      \<lparr> NODE_ENV = Some ''production'', now_iso = ''2024-05-01T10:00:00.000Z'',
        stack_of = (\<lambda>m. ''Error: '' @ m), numbers = exact_ops \<rparr>
      [\<lparr> inv_id = ''507f1f77bcf86cd799439011'', createdAt = 1,
         doc = [(''invoiceNumber'', JStr (''BCC'' @ [CHR 0x0A] @ ''1''))] \<rparr>]
      ''507f1f77bcf86cd799439011''
      (Settles 10 (Inr (''%PDF'' @ replicate 1000 (CHR ''x'') @ ''%%EOF'')))) =
   Failed 500
     \<lparr> b_message = msg_generic, b_code = ''PDF_GENERATION_ERROR'',
       b_invoiceNumber = JStr (''BCC'' @ [CHR 0x0A] @ ''1''),
       b_timestamp = ''2024-05-01T10:00:00.000Z'', b_debug = None \<rparr>"
proof -
  let ?inv = "\<lparr> inv_id = ''507f1f77bcf86cd799439011'', createdAt = 1,
         doc = [(''invoiceNumber'', JStr (''BCC'' @ [CHR 0x0A] @ ''1'')) :: string \<times> exact jsval] \<rparr>"
  let ?env = "\<lparr> NODE_ENV = Some ''production'', now_iso = ''2024-05-01T10:00:00.000Z'',
        stack_of = (\<lambda>m. ''Error: '' @ m), numbers = exact_ops \<rparr>"
  let ?buf = "''%PDF'' @ replicate 1000 (CHR ''x'') @ ''%%EOF''"
  have v: "valid_id ''507f1f77bcf86cd799439011''" by code_simp
  have f: "findById [?inv] ''507f1f77bcf86cd799439011'' = Some ?inv" by (simp add: findById_def)
  have r: "promise_race (Settles 10 (Inr ?buf)) = Inr ?buf"
    by (simp add: promise_race_def timeoutMs_def del: append.simps replicate.simps)
  have e: "str_includes ''x%%EOF'' ''%%EOF''" by code_simp
  have ok: "verify_pdf ?buf = Inr []" by (simp add: verify_pdf_def e)
  have h: "send_headers ?env ?inv = Some msg_invalid_header" by (rule headers_refused)
  have "response (pdf_route ?env [?inv] ''507f1f77bcf86cd799439011'' (Settles 10 (Inr ?buf))) =
      catch_error ?env ?inv msg_invalid_header"
    by (simp only: pdf_route_found(1) [OF v f] r after_race_def ok h sum.case option.case fst_conv)
  then show ?thesis
    by (simp add: catch_error_def classify_msg_invalid_header field_def)
qed

lemma classify_msg_empty:
  "classify msg_empty =
     \<lparr> statusCode = 422, errorMessage = msg_empty, errorCode = ''PDF_VALIDATION_ERROR'' \<rparr>"
  by code_simp

lemma classify_msg_too_small:
  "classify msg_too_small =
     \<lparr> statusCode = 422, errorMessage = msg_too_small, errorCode = ''PDF_VALIDATION_ERROR'' \<rparr>"
  by code_simp

lemma classify_msg_not_pdf:
  "classify msg_not_pdf =
     \<lparr> statusCode = 500, errorMessage = msg_generic, errorCode = ''PDF_GENERATION_ERROR'' \<rparr>"
  by code_simp

lemma short_buffer_rejected:
  assumes "valid_id ident" and "findById st ident = Some invoice"
    and "t < timeoutMs" and "length b < 1000"
  shows "response_status (response (pdf_route env st ident (Settles t (Inr b)))) = 422"
    and "response_code (response (pdf_route env st ident (Settles t (Inr b)))) =
      Some ''PDF_VALIDATION_ERROR''"
proof -
  have "verify_pdf b = Inl msg_empty \<or> verify_pdf b = Inl msg_too_small"
    using assms(4) verify_pdf_messages(1,2) [of b] by blast
  then have "response (pdf_route env st ident (Settles t (Inr b))) = catch_error env invoice msg_empty \<or>
      response (pdf_route env st ident (Settles t (Inr b))) = catch_error env invoice msg_too_small"
    using pdf_route_found(1) [OF assms(1,2), of env "Settles t (Inr b)"] assms(3)
    by (auto simp: after_race_def promise_race_def)
  then show "response_status (response (pdf_route env st ident (Settles t (Inr b)))) = 422"
    and "response_code (response (pdf_route env st ident (Settles t (Inr b)))) =
      Some ''PDF_VALIDATION_ERROR''"
    by (auto simp: catch_error_def classify_msg_empty classify_msg_too_small)
qed

text \<open>
  C5. The verification raises for an empty buffer, for a buffer of fewer than 1000 bytes
  and for a buffer that does not start with \<^verbatim>\<open>%PDF\<close>; a buffer of at least 1000
  bytes that starts with \<^verbatim>\<open>%PDF\<close> passes, with a warning when \<^verbatim>\<open>%%EOF\<close> is
  missing, and is delivered once its headers are written (\<open>verify_pdf_rejects\<close>,
  \<open>verified_delivered\<close>). An empty or short buffer is
  answered as a validation error, 422 with the code \<^verbatim>\<open>PDF_VALIDATION_ERROR\<close>
  (\<open>short_buffer_rejected\<close>). A buffer with another header is not: the text of its error
  holds neither \<^verbatim>\<open>vide\<close> nor \<^verbatim>\<open>corrompu\<close>, and a buffer of 1000 bytes \<^verbatim>\<open>x\<close>
  is answered with 500 and the code \<^verbatim>\<open>PDF_GENERATION_ERROR\<close>.
\<close>

theorem invalid_header_classified_as_generic:
  "verify_pdf (replicate 1000 (CHR ''x'')) = Inl msg_not_pdf \<and>
   (case response (pdf_route
        \<lparr> NODE_ENV = Some ''production'', now_iso = ''2024-05-01T10:00:00.000Z'',
          stack_of = (\<lambda>m. ''Error: '' @ m), numbers = exact_ops \<rparr>
        [\<lparr> inv_id = ''507f1f77bcf86cd799439011'', createdAt = 1,
           doc = [(''invoiceNumber'', JStr ''BCC001'') :: string \<times> exact jsval] \<rparr>]
        ''507f1f77bcf86cd799439011''
        (Settles 10 (Inr (replicate 1000 (CHR ''x''))))) of
      Failed n b \<Rightarrow> (n, b_code b)
    | other \<Rightarrow> (0, [])) = (500, ''PDF_GENERATION_ERROR'')"
proof -
  let ?inv = "\<lparr> inv_id = ''507f1f77bcf86cd799439011'', createdAt = 1,
         doc = [(''invoiceNumber'', JStr ''BCC001'') :: string \<times> exact jsval] \<rparr>"
  have v: "valid_id ''507f1f77bcf86cd799439011''" by code_simp
  have f: "findById [?inv] ''507f1f77bcf86cd799439011'' = Some ?inv" by (simp add: findById_def)
  have "take 4 (replicate 1000 (CHR ''x'')) = ''xxxx''" by (simp add: numeral_eq_Suc)
  then have n: "verify_pdf (replicate 1000 (CHR ''x'')) = Inl msg_not_pdf"
    by (simp add: verify_pdf_def del: replicate.simps take_replicate)
  have r: "promise_race (Settles 10 (Inr (replicate 1000 (CHR ''x'')))) = Inr (replicate 1000 (CHR ''x''))"
    by (simp add: promise_race_def timeoutMs_def del: replicate.simps)
  show ?thesis
    by (simp only: pdf_route_found(1) [OF v f] r n)
       (simp add: after_race_def n catch_error_def classify_msg_not_pdf del: replicate.simps)
qed

section \<open>Properties of the renderer\<close>

lemma run_steps_calls:
  "run_steps steps = (r, cs) \<Longrightarrow> \<forall>(c, s)\<in>set steps. (case c of None \<Rightarrow> True | Some e \<Rightarrow> on_browser b e)
   \<Longrightarrow> list_all (on_browser b) cs"
proof (induction steps arbitrary: r cs)
  case Nil
  then show ?case by simp
next
  case (Cons a steps)
  obtain c s where a: "a = (c, s)" by (cases a)
  show ?case
  proof (cases s)
    case (Resolves u)
    obtain r' cs' where rs: "run_steps steps = (r', cs')" by (cases "run_steps steps")
    with Cons.prems(1) a Resolves have cs: "cs = (case c of None \<Rightarrow> [] | Some e \<Rightarrow> [e]) @ cs'"
      by simp
    from Cons.IH [OF rs] Cons.prems(2) have "list_all (on_browser b) cs'" by simp
    with Cons.prems(2) a cs show ?thesis by (cases c) simp_all
  next
    case (Rejects m)
    with Cons.prems a show ?thesis by (cases c) auto
  next
    case Hangs
    with Cons.prems a show ?thesis by (cases c) auto
  qed
qed

lemma render_page_calls:
  assumes "render_page E b = (r, cs)"
  shows "list_all (on_browser b) cs"
proof -
  let ?steps = "[(Some (PageOpened b), newPage E), (Some (ViewportSet b), setViewport E),
                 (None, generateInvoiceHTML E), (Some (ContentSet b), setContent E)]"
  obtain r' cs' where rs: "run_steps ?steps = (r', cs')" by (cases "run_steps ?steps")
  have "list_all (on_browser b) cs'"
    by (rule run_steps_calls [OF rs]) simp
  with assms rs show ?thesis
    by (cases r') (auto simp: render_page_def)
qed

lemma run_steps_settles:
  "\<forall>(c, s)\<in>set steps. settles s \<Longrightarrow> fst (run_steps steps) \<noteq> Hangs"
proof (induction steps)
  case Nil
  then show ?case by simp
next
  case (Cons a steps)
  obtain c s where a: "a = (c, s)" by (cases a)
  with Cons show ?case
    by (cases s) (auto simp: settles_def split: prod.splits)
qed

lemma render_page_settles:
  assumes "all_settle E"
  shows "fst (render_page E b) \<noteq> Hangs"
proof -
  let ?steps = "[(Some (PageOpened b), newPage E), (Some (ViewportSet b), setViewport E),
                 (None, generateInvoiceHTML E), (Some (ContentSet b), setContent E)]"
  have "\<forall>(c, s)\<in>set ?steps. settles s"
    using assms by (simp add: all_settle_def)
  then have "fst (run_steps ?steps) \<noteq> Hangs"
    by (rule run_steps_settles)
  moreover have "pdf E \<noteq> Hangs" using assms by (simp add: all_settle_def settles_def)
  ultimately show ?thesis
    by (cases "run_steps ?steps"; cases "fst (run_steps ?steps)") (auto simp: render_page_def)
qed

text \<open>
  C8. \<^verbatim>\<open>generateInvoicePDF\<close> returns whenever every call of the scenario settles. An
  invocation that returns has either acquired no browser instance (the call before the
  launch or the launch itself did not resolve) and made no call on one, or it has
  launched an instance \<open>b\<close> itself, then made only page calls on \<open>b\<close>, and closed \<open>b\<close>
  as its last call, whether the page calls succeeded or one of them raised. No call is
  made on an instance other than the one the invocation launched.
\<close>

theorem browser_released:
  "(all_settle E \<longrightarrow> generateInvoicePDF isProduction E \<noteq> None) \<and>
   (\<forall>result calls. generateInvoicePDF isProduction E = Some (result, calls) \<longrightarrow>
      (calls = [] \<and>
       ((if isProduction then executablePath E else import_puppeteer E) \<noteq> Resolves () \<or>
        (\<forall>b. launch E \<noteq> Resolves b))) \<or>
      (\<exists>b mid.
         (if isProduction then executablePath E else import_puppeteer E) = Resolves () \<and>
         launch E = Resolves b \<and>
         calls = Launched b # mid @ [Closed b] \<and> list_all (on_browser b) mid))"
proof (intro conjI impI allI)
  assume s: "all_settle E"
  let ?pre = "if isProduction then executablePath E else import_puppeteer E"
  from s have p: "?pre \<noteq> Hangs" and l: "launch E \<noteq> Hangs" and c: "close E \<noteq> Hangs"
    by (simp_all add: all_settle_def settles_def)
  show "generateInvoicePDF isProduction E \<noteq> None"
  proof (cases ?pre)
    case (Resolves u)
    show ?thesis
    proof (cases "launch E")
      case (Resolves b) note lb = this
      obtain r cs where rp: "render_page E b = (r, cs)" by (cases "render_page E b")
      with render_page_settles [OF s, of b] have "r \<noteq> Hangs" by simp
      with \<open>?pre = Resolves u\<close> lb rp c show ?thesis
        by (cases r; cases "close E") (simp_all add: generateInvoicePDF_def finally_close_def)
    next
      case (Rejects m)
      with \<open>?pre = Resolves u\<close> show ?thesis by (simp add: generateInvoicePDF_def)
    next
      case Hangs
      with l show ?thesis by simp
    qed
  next
    case (Rejects m)
    then show ?thesis by (simp add: generateInvoicePDF_def)
  next
    case Hangs
    with p show ?thesis by simp
  qed
next
  fix result calls
  let ?pre = "if isProduction then executablePath E else import_puppeteer E"
  assume g: "generateInvoicePDF isProduction E = Some (result, calls)"
  show "(calls = [] \<and> (?pre \<noteq> Resolves () \<or> (\<forall>b. launch E \<noteq> Resolves b))) \<or>
      (\<exists>b mid. ?pre = Resolves () \<and> launch E = Resolves b \<and>
         calls = Launched b # mid @ [Closed b] \<and> list_all (on_browser b) mid)"
  proof (cases ?pre)
    case (Resolves u)
    show ?thesis
    proof (cases "launch E")
      case (Resolves b) note lb = this
      obtain r cs where rp: "render_page E b = (r, cs)" by (cases "render_page E b")
      from render_page_calls [OF rp] have m: "list_all (on_browser b) cs" .
      from g \<open>?pre = Resolves u\<close> lb rp have "calls = Launched b # cs @ [Closed b]"
        by (cases r; cases "close E") (simp_all add: generateInvoicePDF_def finally_close_def)
      with \<open>?pre = Resolves u\<close> lb m show ?thesis by simp
    next
      case (Rejects m)
      with g \<open>?pre = Resolves u\<close> show ?thesis by (simp add: generateInvoicePDF_def)
    next
      case Hangs
      with g \<open>?pre = Resolves u\<close> show ?thesis by (simp add: generateInvoicePDF_def)
    qed
  next
    case (Rejects m)
    with g show ?thesis by (simp add: generateInvoicePDF_def)
  next
    case Hangs
    with g show ?thesis by (simp add: generateInvoicePDF_def)
  qed
qed

text \<open>The theorem at a scenario in which loading the content times out.\<close>

theorem browser_released_witness:
  "\<exists>result b mid.
      generateInvoicePDF True
        \<lparr> executablePath = Resolves (), import_puppeteer = Resolves (), launch = Resolves 7,
          newPage = Resolves (), setViewport = Resolves (), generateInvoiceHTML = Resolves (),
          setContent = Rejects ''Navigation timeout of 30000 ms exceeded'',
          pdf = Resolves ''%PDF-1.4'', close = Resolves () \<rparr> =
        Some (result, Launched b # mid @ [Closed b]) \<and>
      list_all (on_browser b) mid"
proof -
  let ?E = "\<lparr> executablePath = Resolves (), import_puppeteer = Resolves (), launch = Resolves 7,
          newPage = Resolves (), setViewport = Resolves (), generateInvoiceHTML = Resolves (),
          setContent = Rejects ''Navigation timeout of 30000 ms exceeded'',
          pdf = Resolves ''%PDF-1.4'', close = Resolves () \<rparr>"
  have s: "all_settle ?E" by (simp add: all_settle_def settles_def)
  from browser_released [of ?E True, THEN conjunct1, rule_format, OF s]
  obtain result calls where g: "generateInvoicePDF True ?E = Some (result, calls)"
    by (cases "generateInvoicePDF True ?E") auto
  from browser_released [of ?E True, THEN conjunct2, rule_format, OF g]
  have "(calls = [] \<and>
       ((if True then executablePath ?E else import_puppeteer ?E) \<noteq> Resolves () \<or>
        (\<forall>b. launch ?E \<noteq> Resolves b))) \<or>
      (\<exists>b mid.
         (if True then executablePath ?E else import_puppeteer ?E) = Resolves () \<and>
         launch ?E = Resolves b \<and>
         calls = Launched b # mid @ [Closed b] \<and> list_all (on_browser b) mid)" .
  then obtain b mid where "calls = Launched b # mid @ [Closed b]" "list_all (on_browser b) mid"
    by auto
  with g show ?thesis by blast
qed

lemma content_timeout_run:
  "generateInvoicePDF True
     \<lparr> executablePath = Resolves (), import_puppeteer = Resolves (), launch = Resolves 7,
       newPage = Resolves (), setViewport = Resolves (), generateInvoiceHTML = Resolves (),
       setContent = Rejects ''Navigation timeout of 30000 ms exceeded'',
       pdf = Resolves ''%PDF-1.4'', close = Resolves () \<rparr> =
   Some (Inl (wrap_error ''Navigation timeout of 30000 ms exceeded''),
         [Launched 7, PageOpened 7, ViewportSet 7, ContentSet 7, Closed 7])"
  by (simp add: generateInvoicePDF_def render_page_def finally_close_def)

lemma successful_run:
  "generateInvoicePDF False
     \<lparr> executablePath = Resolves (), import_puppeteer = Resolves (), launch = Resolves 7,
       newPage = Resolves (), setViewport = Resolves (), generateInvoiceHTML = Resolves (),
       setContent = Resolves (), pdf = Resolves ''%PDF-1.4'', close = Resolves () \<rparr> =
   Some (Inr ''%PDF-1.4'',
         [Launched 7, PageOpened 7, ViewportSet 7, ContentSet 7, PdfPrinted 7, Closed 7])"
  by (simp add: generateInvoicePDF_def render_page_def finally_close_def)

lemma launch_failure_run:
  "generateInvoicePDF True
     \<lparr> executablePath = Resolves (), import_puppeteer = Resolves (),
       launch = Rejects ''Failed to launch the browser process'',
       newPage = Resolves (), setViewport = Resolves (), generateInvoiceHTML = Resolves (),
       setContent = Resolves (), pdf = Resolves ''%PDF-1.4'', close = Resolves () \<rparr> =
   Some (Inl (wrap_error ''Failed to launch the browser process''), [])"
  by (simp add: generateInvoicePDF_def)

end
